theory Spec2Isabelle
  imports Main
begin

section \<open>Level text and the map decoder\<close>

text \<open>
  A JavaScript string is modelled as a \<^typ>\<open>string\<close>, one \<^typ>\<open>char\<close> per code unit.
  The level alphabet of \<^verbatim>\<open>MAP_SPRITES\<close> is ASCII, and the code units a \<^typ>\<open>char\<close>
  can hold are those below 256; among them \<^verbatim>\<open>String.prototype.trim\<close> removes
  TAB, LF, VT, FF, CR, SPACE and NBSP.
\<close>

definition nl :: char where
  "nl = CHR 0x0A"

definition is_js_space :: "char \<Rightarrow> bool" where
  "is_js_space c = (c \<in> set [CHR 0x09, CHR 0x0A, CHR 0x0B, CHR 0x0C, CHR 0x0D, CHR 0x20, CHR 0xA0])"

text \<open>\<^verbatim>\<open>s.trim()\<close>\<close>

definition trim :: "string \<Rightarrow> string" where
  "trim s = rev (dropWhile is_js_space (rev (dropWhile is_js_space s)))"

text \<open>\<^verbatim>\<open>s.split('\n')\<close>: never empty, one more piece than there are line feeds.\<close>

fun split_nl :: "string \<Rightarrow> string list" where
  "split_nl [] = [[]]"
| "split_nl (c # cs) =
     (if c = nl then [] # split_nl cs
      else (case split_nl cs of [] \<Rightarrow> [[c]] | r # rs \<Rightarrow> (c # r) # rs))"

text \<open>\<^verbatim>\<open>row.split('')\<close>: one string of length one per code unit.\<close>

definition split_chars :: "string \<Rightarrow> string list" where
  "split_chars row = map (\<lambda>c. [c]) row"

text \<open>
  \<^verbatim>\<open>
  function parseAsciiMap(asciiMap) {
      if (!asciiMap) return [];
      return asciiMap.trim().split('\n').map(row => row.split(''));
  }
  \<close>
  The argument is a string; the empty string is the falsy one. The function reads no
  variable of the module and writes none, so the model takes the text alone and returns
  the grid alone.
\<close>

definition parseAsciiMap :: "string \<Rightarrow> string list list" where
  "parseAsciiMap asciiMap =
     (if asciiMap = [] then [] else map split_chars (split_nl (trim asciiMap)))"

text \<open>Joining rows with line feeds, the inverse of the split.\<close>

fun join_nl :: "string list \<Rightarrow> string" where
  "join_nl [] = []"
| "join_nl [r] = r"
| "join_nl (r # r' # rs) = r @ nl # join_nl (r' # rs)"

section \<open>The visualisation module (game-visualization.js)\<close>

text \<open>
  The module keeps its state in variables private to a closure; the model gathers them in
  one record, together with the parts of the browser the module acts on: the interval
  timers that are active, the image loads that were started, the drawing operations sent
  to the canvas, the callback invocations and the save requests, each as a log in order.
  Console output is not modelled.
\<close>

datatype image = Image string

datatype js_error = TypeError

datatype canvas_op =
    SetSize nat nat
  | ClearRect
  | FillText string
  | DrawImage image nat nat
  | FillRect nat nat

datatype notification =
    StepUpdate int int
  | SolutionReady int
  | NoSolution
  | PlaybackEnd

text \<open>The callback bag: each field says whether the caller supplied that function.\<close>

record callbacks =
  onStepUpdate :: bool
  onSolutionReady :: bool
  onNoSolution :: bool
  onPlaybackEnd :: bool

text \<open>One element of \<^verbatim>\<open>data.states\<close>.\<close>

record game_state =
  move :: "string option"
  ascii_map :: string

record vis =
  SPRITE_IMAGES :: "string \<rightharpoonup> image"
  currentSolution :: "string list"
  currentStepIndex :: int
  solutionPlayerInterval :: "nat option"
  precomputedStates :: "game_state list"
  timers :: "(nat \<times> int \<times> callbacks) list"
  timer_count :: nat
  loads :: "string list"
  canvas :: "canvas_op list"
  notified :: "notification list"
  saved :: "(string \<times> int) list"

text \<open>
  A call either returns a value or throws (for an \<^verbatim>\<open>async\<close> function: its promise is
  fulfilled or rejected); in both cases the state reached is kept.
\<close>

datatype 'a outcome = Threw js_error vis | Done 'a vis

fun state_of :: "'a outcome \<Rightarrow> vis" where
  "state_of (Threw e st) = st"
| "state_of (Done v st) = st"

fun threw :: "'a outcome \<Rightarrow> bool" where
  "threw (Threw e st) = True"
| "threw (Done v st) = False"

fun returned :: "'a outcome \<Rightarrow> 'a option" where
  "returned (Threw e st) = None"
| "returned (Done v st) = Some v"

definition TILE_SIZE :: nat where
  "TILE_SIZE = 20"

definition SPRITE_BASE_PATH :: string where
  "SPRITE_BASE_PATH = ''/static/img/''"

definition MAP_SPRITES :: "string \<rightharpoonup> string" where
  "MAP_SPRITES = map_of
    [(''_'', ''border.png''), ('' '', ''empty.png''), (''.'', ''floor_obj.png''),
     (''b'', ''baba_obj.png''), (''B'', ''baba_word.png''),
     (''s'', ''skull_obj.png''), (''S'', ''skull_word.png''),
     (''f'', ''flag_obj.png''), (''F'', ''flag_word.png''),
     (''o'', ''floor_obj.png''), (''O'', ''floor_word.png''),
     (''a'', ''grass_obj.png''), (''A'', ''grass_word.png''),
     (''l'', ''lava_obj.png''), (''L'', ''lava_word.png''),
     (''r'', ''rock_obj.png''), (''R'', ''rock_word.png''),
     (''w'', ''wall_obj.png''), (''W'', ''wall_word.png''),
     (''k'', ''keke_obj.png''), (''K'', ''keke_word.png''),
     (''g'', ''goop_obj.png''), (''G'', ''goop_word.png''),
     (''v'', ''love_obj.png''), (''V'', ''love_word.png''),
     (''1'', ''is_word.png''), (''2'', ''you_word.png''), (''3'', ''win_word.png''),
     (''4'', ''kill_word.png''), (''5'', ''push_word.png''), (''6'', ''stop_word.png''),
     (''7'', ''move_word.png''), (''8'', ''hot_word.png''), (''9'', ''melt_word.png''),
     (''0'', ''sink_word.png'')]"

text \<open>\<^verbatim>\<open>s.endsWith(suf)\<close>\<close>

definition endsWith :: "string \<Rightarrow> string \<Rightarrow> bool" where
  "endsWith s suf = (length suf \<le> length s \<and> drop (length s - length suf) s = suf)"

text \<open>
  A value used as a property key: \<^verbatim>\<open>undefined\<close> (here \<open>None\<close>) is converted to the
  string \<^verbatim>\<open>"undefined"\<close>. Both tables are plain objects, so a key that names a property
  of \<^verbatim>\<open>Object.prototype\<close> would find that property; those names are all longer than
  one character, none ends in \<^verbatim>\<open>.png\<close>, and the module passes \<^verbatim>\<open>loadSprite\<close> only
  single characters of a grid, \<^verbatim>\<open>undefined\<close> and the file names of the table.
\<close>

definition prop_key :: "string option \<Rightarrow> string" where
  "prop_key v = (case v of None \<Rightarrow> ''undefined'' | Some s \<Rightarrow> s)"

subsection \<open>loadSprite\<close>

text \<open>
  \<^verbatim>\<open>
  async function loadSprite(spriteName) {
      if (SPRITE_IMAGES[spriteName]) {
          return SPRITE_IMAGES[spriteName];
      }
      if (!MAP_SPRITES[spriteName] && !spriteName.endsWith('.png')) {
          console.warn(...);
          return null;
      }
      const imgSrc = spriteName.endsWith('.png') ? SPRITE_BASE_PATH + spriteName
                                                 : SPRITE_BASE_PATH + MAP_SPRITES[spriteName];
      try {
          const img = new Image();
          img.src = imgSrc;
          await img.decode();
          SPRITE_IMAGES[spriteName] = img;
          return img;
      } catch (error) {
          console.error(...);
          return null;
      }
  }
  \<close>
  The function suspends once, at \<^verbatim>\<open>await img.decode()\<close>. \<open>loadSprite_start\<close> is the part
  that runs when the function is called, up to that point: it either finishes the call or
  leaves it waiting for an image whose load it has started (one more entry in \<open>loads\<close>).
  \<open>loadSprite_settle\<close> is the part that runs when the decode has succeeded or failed.
  Calling a method of \<^verbatim>\<open>undefined\<close> throws a \<^verbatim>\<open>TypeError\<close>.
\<close>

datatype load_step = Resolved "image option" | Awaiting string image

definition start_load :: "string \<Rightarrow> string \<Rightarrow> vis \<Rightarrow> load_step outcome" where
  "start_load spriteName imgSrc st =
     Done (Awaiting spriteName (Image imgSrc)) (st\<lparr>loads := loads st @ [imgSrc]\<rparr>)"

definition loadSprite_start :: "string option \<Rightarrow> vis \<Rightarrow> load_step outcome" where
  "loadSprite_start spriteName st =
     (case SPRITE_IMAGES st (prop_key spriteName) of
        Some img \<Rightarrow> Done (Resolved (Some img)) st
      | None \<Rightarrow>
          (case MAP_SPRITES (prop_key spriteName) of
             None \<Rightarrow>
               (case spriteName of
                  None \<Rightarrow> Threw TypeError st
                | Some s \<Rightarrow>
                    if \<not> endsWith s ''.png'' then Done (Resolved None) st
                    else start_load s (SPRITE_BASE_PATH @ s) st)
           | Some file \<Rightarrow>
               (case spriteName of
                  None \<Rightarrow> Threw TypeError st
                | Some s \<Rightarrow>
                    start_load s
                      (if endsWith s ''.png'' then SPRITE_BASE_PATH @ s
                       else SPRITE_BASE_PATH @ file) st)))"

definition loadSprite_settle :: "bool \<Rightarrow> string \<Rightarrow> image \<Rightarrow> vis \<Rightarrow> image option outcome" where
  "loadSprite_settle decoded spriteName img st =
     (if decoded then Done (Some img) (st\<lparr>SPRITE_IMAGES := (SPRITE_IMAGES st)(spriteName \<mapsto> img)\<rparr>)
      else Done None st)"

text \<open>
  A call that is awaited with nothing else running in between. The browser decides
  whether a decode succeeds: \<open>dec k\<close> is the fate of the load that was started when
  \<open>k\<close> loads had been started before it.
\<close>

definition loadSprite :: "(nat \<Rightarrow> bool) \<Rightarrow> string option \<Rightarrow> vis \<Rightarrow> image option outcome" where
  "loadSprite dec spriteName st =
     (case loadSprite_start spriteName st of
        Threw e st' \<Rightarrow> Threw e st'
      | Done (Resolved r) st' \<Rightarrow> Done r st'
      | Done (Awaiting k img) st' \<Rightarrow> loadSprite_settle (dec (length (loads st))) k img st')"

subsection \<open>drawMap\<close>

definition paint :: "canvas_op \<Rightarrow> vis \<Rightarrow> vis" where
  "paint op st = st\<lparr>canvas := canvas st @ [op]\<rparr>"

text \<open>\<^verbatim>\<open>mapArray[r][c]\<close>: reading an array past its end gives \<^verbatim>\<open>undefined\<close>.\<close>

definition cell :: "string list \<Rightarrow> nat \<Rightarrow> string option" where
  "cell row c = (if c < length row then Some (row ! c) else None)"

text \<open>
  \<^verbatim>\<open>
  for (let c = 0; c < numCols; c++) {
      const char = mapArray[r][c];
      const spriteImg = await loadSprite(char);
      if (spriteImg) {
          ctx.drawImage(spriteImg, c * TILE_SIZE, r * TILE_SIZE, TILE_SIZE, TILE_SIZE);
      } else {
          ctx.fillStyle = '#555';
          ctx.fillRect(c * TILE_SIZE, r * TILE_SIZE, TILE_SIZE, TILE_SIZE);
      }
  }
  \<close>
\<close>

function draw_cells :: "(nat \<Rightarrow> bool) \<Rightarrow> string list \<Rightarrow> nat \<Rightarrow> nat \<Rightarrow> nat \<Rightarrow> vis \<Rightarrow> unit outcome" where
  "draw_cells dec row r numCols c st =
     (if c < numCols then
        (case loadSprite dec (cell row c) st of
           Threw e st' \<Rightarrow> Threw e st'
         | Done spriteImg st' \<Rightarrow>
             draw_cells dec row r numCols (Suc c)
               (case spriteImg of
                  Some img \<Rightarrow> paint (DrawImage img (c * TILE_SIZE) (r * TILE_SIZE)) st'
                | None \<Rightarrow> paint (FillRect (c * TILE_SIZE) (r * TILE_SIZE)) st'))
      else Done () st)"
  by pat_completeness auto
termination
  by (relation "measure (\<lambda>(dec, row, r, numCols, c, st). numCols - c)") auto

text \<open>\<^verbatim>\<open>for (let r = 0; r < numRows; r++) { ... }\<close>\<close>

function draw_rows :: "(nat \<Rightarrow> bool) \<Rightarrow> string list list \<Rightarrow> nat \<Rightarrow> nat \<Rightarrow> nat \<Rightarrow> vis \<Rightarrow> unit outcome" where
  "draw_rows dec mapArray numRows numCols r st =
     (if r < numRows then
        (case draw_cells dec (mapArray ! r) r numCols 0 st of
           Threw e st' \<Rightarrow> Threw e st'
         | Done u st' \<Rightarrow> draw_rows dec mapArray numRows numCols (Suc r) st')
      else Done () st)"
  by pat_completeness auto
termination
  by (relation "measure (\<lambda>(dec, mapArray, numRows, numCols, r, st). numRows - r)") auto

declare draw_cells.simps [simp del]
declare draw_rows.simps [simp del]

text \<open>
  \<^verbatim>\<open>
  async function drawMap(mapArray, canvas) {
      if (!ctx) { ctx = canvas.getContext('2d'); }
      if (!mapArray || mapArray.length === 0) {
          ctx.clearRect(0, 0, canvas.width, canvas.height);
          ctx.fillStyle = '#333';
          ctx.textAlign = 'center';
          ctx.fillText("Mappa non disponibile o vuota.", canvas.width / 2, canvas.height / 2);
          return;
      }
      const numRows = mapArray.length;
      const numCols = mapArray[0].length;
      canvas.width = numCols * TILE_SIZE;
      canvas.height = numRows * TILE_SIZE;
      ctx.clearRect(0, 0, canvas.width, canvas.height);
      for (let r = 0; r < numRows; r++) { ... }
  }
  \<close>
  There is one canvas, so the context is not modelled apart from it. The row read in
  \<open>draw_rows\<close> and the first row read here are inside the array.
\<close>

definition drawMap :: "(nat \<Rightarrow> bool) \<Rightarrow> string list list \<Rightarrow> vis \<Rightarrow> unit outcome" where
  "drawMap dec mapArray st =
     (if mapArray = [] then
        Done () (paint (FillText ''Mappa non disponibile o vuota.'') (paint ClearRect st))
      else
        let numRows = length mapArray;
            numCols = length (mapArray ! 0);
            st1 = paint ClearRect (paint (SetSize (numCols * TILE_SIZE) (numRows * TILE_SIZE)) st)
        in draw_rows dec mapArray numRows numCols 0 st1)"

subsection \<open>displayPrecomputedStep and displayStep\<close>

definition notify :: "notification \<Rightarrow> vis \<Rightarrow> vis" where
  "notify n st = st\<lparr>notified := notified st @ [n]\<rparr>"

text \<open>
  \<^verbatim>\<open>
  async function displayPrecomputedStep(stepIndex, callbacks, canvas) {
      if (!precomputedStates || precomputedStates.length === 0) { console.log(...); return; }
      if (stepIndex < 0 || stepIndex >= precomputedStates.length) { console.log(...); return; }
      const state = precomputedStates[stepIndex];
      currentStepIndex = stepIndex;
      const mapArray = parseAsciiMap(state.ascii_map);
      logMapToConsole(mapArray, stepInfo);
      await drawMap(mapArray, canvas);
      if (callbacks.onStepUpdate) {
          callbacks.onStepUpdate(stepIndex, precomputedStates.length - 1);
      }
  }
  \<close>
  The step index is an integer, as every caller passes one. The call is followed to its
  end with nothing else running while it waits for \<^verbatim>\<open>drawMap\<close>.
\<close>

definition displayPrecomputedStep :: "(nat \<Rightarrow> bool) \<Rightarrow> int \<Rightarrow> callbacks \<Rightarrow> vis \<Rightarrow> unit outcome" where
  "displayPrecomputedStep dec stepIndex cb st =
     (if precomputedStates st = [] then Done () st
      else if stepIndex < 0 \<or> stepIndex \<ge> int (length (precomputedStates st)) then Done () st
      else
        let state = precomputedStates st ! nat stepIndex;
            st1 = st\<lparr>currentStepIndex := stepIndex\<rparr>;
            mapArray = parseAsciiMap (ascii_map state)
        in (case drawMap dec mapArray st1 of
              Threw e st2 \<Rightarrow> Threw e st2
            | Done u st2 \<Rightarrow>
                Done ()
                  (if onStepUpdate cb
                   then notify (StepUpdate stepIndex (int (length (precomputedStates st2)) - 1)) st2
                   else st2)))"

text \<open>
  \<^verbatim>\<open>
  displayStep: async function(stepIndex, callbacks = {}, canvas) {
      await displayPrecomputedStep(stepIndex, callbacks, canvas);
      return this;
  }
  \<close>
\<close>

definition displayStep :: "(nat \<Rightarrow> bool) \<Rightarrow> int \<Rightarrow> callbacks \<Rightarrow> vis \<Rightarrow> unit outcome" where
  "displayStep dec stepIndex cb st = displayPrecomputedStep dec stepIndex cb st"

subsection \<open>Playback: toggleSolutionPlayback and the interval callback\<close>

text \<open>
  \<^verbatim>\<open>setInterval\<close> returns a fresh positive handle (so a stored handle is truthy) and the
  timer stays active until \<^verbatim>\<open>clearInterval\<close> is given that handle. An active timer is
  recorded with what its callback captured: \<^verbatim>\<open>maxStepIndex\<close> and the callbacks.
\<close>

definition setInterval :: "int \<Rightarrow> callbacks \<Rightarrow> vis \<Rightarrow> nat \<times> vis" where
  "setInterval maxStepIndex cb st =
     (let h = Suc (timer_count st)
      in (h, st\<lparr>timers := timers st @ [(h, maxStepIndex, cb)], timer_count := h\<rparr>))"

definition clearInterval :: "nat \<Rightarrow> vis \<Rightarrow> vis" where
  "clearInterval h st = st\<lparr>timers := filter (\<lambda>t. fst t \<noteq> h) (timers st)\<rparr>"

text \<open>
  \<^verbatim>\<open>
  if (solutionPlayerInterval) {
      clearInterval(solutionPlayerInterval);
      solutionPlayerInterval = null;
  }
  \<close>
\<close>

definition stop_player :: "vis \<Rightarrow> vis" where
  "stop_player st =
     (case solutionPlayerInterval st of
        None \<Rightarrow> st
      | Some h \<Rightarrow> (clearInterval h st)\<lparr>solutionPlayerInterval := None\<rparr>)"

text \<open>
  \<^verbatim>\<open>
  const maxStepIndex = precomputedStates && precomputedStates.length > 0
      ? precomputedStates.length - 1
      : currentSolution.length - 1;
  \<close>
\<close>

definition maxStepIndex_of :: "vis \<Rightarrow> int" where
  "maxStepIndex_of st =
     (if precomputedStates st \<noteq> [] then int (length (precomputedStates st)) - 1
      else int (length (currentSolution st)) - 1)"

text \<open>
  \<^verbatim>\<open>
  toggleSolutionPlayback: function(callbacks = {}, canvas, speed = 300) {
      if (solutionPlayerInterval) {
          clearInterval(solutionPlayerInterval);
          solutionPlayerInterval = null;
          return false;
      } else {
          const maxStepIndex = ...;
          if (maxStepIndex < 0) return false;
          if (currentStepIndex >= maxStepIndex) {
              currentStepIndex = -1;
          }
          solutionPlayerInterval = setInterval(() => { ... }, speed);
          return true;
      }
  }
  \<close>
\<close>

definition toggleSolutionPlayback :: "callbacks \<Rightarrow> vis \<Rightarrow> bool \<times> vis" where
  "toggleSolutionPlayback cb st =
     (case solutionPlayerInterval st of
        Some h \<Rightarrow> (False, (clearInterval h st)\<lparr>solutionPlayerInterval := None\<rparr>)
      | None \<Rightarrow>
          let maxStepIndex = maxStepIndex_of st
          in if maxStepIndex < 0 then (False, st)
             else
               let st1 = (if currentStepIndex st \<ge> maxStepIndex
                          then st\<lparr>currentStepIndex := - 1\<rparr> else st);
                   (h, st2) = setInterval maxStepIndex cb st1
               in (True, st2\<lparr>solutionPlayerInterval := Some h\<rparr>))"

text \<open>
  The interval callback:
  \<^verbatim>\<open>
  () => {
      if (currentStepIndex < maxStepIndex) {
          const nextStep = currentStepIndex + 1;
          displayPrecomputedStep(nextStep, callbacks, canvas);
      } else {
          clearInterval(solutionPlayerInterval);
          solutionPlayerInterval = null;
          if (callbacks.onPlaybackEnd) { callbacks.onPlaybackEnd(); }
      }
  }
  \<close>
  The display is not awaited, so an exception in it does not reach the callback; the
  model follows the display to its end before anything else runs.
  \<^verbatim>\<open>clearInterval(null)\<close> does nothing.
\<close>

definition interval_tick :: "(nat \<Rightarrow> bool) \<Rightarrow> int \<Rightarrow> callbacks \<Rightarrow> vis \<Rightarrow> vis" where
  "interval_tick dec maxStepIndex cb st =
     (if currentStepIndex st < maxStepIndex then
        state_of (displayPrecomputedStep dec (currentStepIndex st + 1) cb st)
      else
        let st1 = (case solutionPlayerInterval st of
                     None \<Rightarrow> st
                   | Some h \<Rightarrow> clearInterval h st)\<lparr>solutionPlayerInterval := None\<rparr>
        in if onPlaybackEnd cb then notify PlaybackEnd st1 else st1)"

subsection \<open>init, cleanup, getState\<close>



record player_state =
  isPlaying :: bool
  currentStep :: int
  totalSteps :: int
  hasSolution :: bool

definition getState :: "vis \<Rightarrow> player_state" where
  "getState st =
     (let totalSteps = (if precomputedStates st \<noteq> [] then int (length (precomputedStates st)) - 1
                        else int (length (currentSolution st)))
      in \<lparr>isPlaying = (solutionPlayerInterval st \<noteq> None),
          currentStep = currentStepIndex st,
          totalSteps = totalSteps,
          hasSolution = (totalSteps > 0)\<rparr>)"

text \<open>The state of the module when the script has been loaded.\<close>

definition vis0 :: vis where
  "vis0 = \<lparr>SPRITE_IMAGES = Map.empty, currentSolution = [], currentStepIndex = - 1,
           solutionPlayerInterval = None, precomputedStates = [], timers = [], timer_count = 0,
           loads = [], canvas = [], notified = [], saved = []\<rparr>"

subsection \<open>showGameView\<close>

text \<open>
  The \<^verbatim>\<open>solution\<close> argument is an array, a string, a falsy value, or something else that
  is converted with \<^verbatim>\<open>String(solution)\<close> (\<open>None\<close>: the conversion throws).
\<close>

datatype js_solution =
    SolArray "string list"
  | SolString string
  | SolFalsy
  | SolOther "string option"

fun solution_array :: "js_solution \<Rightarrow> string list" where
  "solution_array (SolArray xs) = xs"
| "solution_array (SolString s) = split_chars s"
| "solution_array SolFalsy = []"
| "solution_array (SolOther (Some s)) = split_chars s"
| "solution_array (SolOther None) = []"

text \<open>
  What comes back from \<^verbatim>\<open>POST /generate_game_states\<close>: the request fails, the response
  is not \<^verbatim>\<open>ok\<close>, or it carries a body with a \<^verbatim>\<open>status\<close> and the \<^verbatim>\<open>states\<close>.
\<close>

datatype server_reply =
    FetchFailed
  | HttpNotOk
  | Reply string "game_state list"

text \<open>
  \<^verbatim>\<open>saveStepByStepSolution(states, levelId)\<close> returns at once for no states; otherwise it
  posts the solution (\<^verbatim>\<open>totalSteps: states.length - 1\<close>) and, if the request fails, stores
  it in \<^verbatim>\<open>localStorage\<close>. It catches its own failures and touches no variable of the
  module; the model records the attempt.
\<close>

definition saveStepByStepSolution :: "game_state list \<Rightarrow> string \<Rightarrow> vis \<Rightarrow> vis" where
  "saveStepByStepSolution states levelId st =
     (if states = [] then st
      else st\<lparr>saved := saved st @ [(levelId, int (length states) - 1)]\<rparr>)"

text \<open>
  The fallback of both the empty answer and the \<^verbatim>\<open>catch\<close> block:
  \<^verbatim>\<open>
  const initialMapArray = parseAsciiMap(asciiMap);
  await drawMap(initialMapArray, canvas);
  if (callbacks.onNoSolution) { callbacks.onNoSolution(); }
  \<close>
\<close>

definition show_initial_map :: "(nat \<Rightarrow> bool) \<Rightarrow> string \<Rightarrow> callbacks \<Rightarrow> vis \<Rightarrow> unit outcome" where
  "show_initial_map dec asciiMap cb st =
     (case drawMap dec (parseAsciiMap asciiMap) st of
        Threw e st' \<Rightarrow> Threw e st'
      | Done u st' \<Rightarrow> Done () (if onNoSolution cb then notify NoSolution st' else st'))"

text \<open>
  \<^verbatim>\<open>
  showGameView: async function(levelId, asciiMap, solution, canvas, callbacks = {}) {
      if (solutionPlayerInterval) { clearInterval(...); solutionPlayerInterval = null; }
      currentStepIndex = -1;
      precomputedStates = [];
      let solutionArray = ...;
      try {
          const response = await fetch('/generate_game_states', ...);
          if (!response.ok) { throw new Error(...); }
          const data = await response.json();
          if (data.status !== 'success') { throw new Error(...); }
          precomputedStates = data.states;
          currentSolution = solutionArray;
          if (precomputedStates.length > 1) {
              await saveStepByStepSolution(precomputedStates, levelId);
          }
          if (precomputedStates.length > 0) {
              currentStepIndex = 0;
              await displayPrecomputedStep(0, callbacks, canvas);
              if (precomputedStates.length > 1 && callbacks.onSolutionReady) {
                  const numberOfMoves = precomputedStates.length - 1;
                  callbacks.onSolutionReady(numberOfMoves);
              }
          } else {
              const initialMapArray = parseAsciiMap(asciiMap);
              await drawMap(initialMapArray, canvas);
              if (callbacks.onNoSolution) { callbacks.onNoSolution(); }
          }
      } catch (error) {
          const initialMapArray = parseAsciiMap(asciiMap);
          await drawMap(initialMapArray, canvas);
          if (callbacks.onNoSolution) { callbacks.onNoSolution(); }
      }
      return this;
  }
  \<close>
  An exception thrown inside \<^verbatim>\<open>try\<close> (also by the display of step 0) is caught and
  leads to the fallback; one thrown by the fallback itself leaves the function.
\<close>

definition showGameView ::
  "(nat \<Rightarrow> bool) \<Rightarrow> server_reply \<Rightarrow> string \<Rightarrow> string \<Rightarrow> js_solution \<Rightarrow> callbacks \<Rightarrow> vis \<Rightarrow> unit outcome" where
  "showGameView dec reply levelId asciiMap solution cb st =
     (let st1 = (stop_player st)\<lparr>currentStepIndex := - 1, precomputedStates := []\<rparr>;
          solutionArray = solution_array solution
      in (case reply of
            Reply status states \<Rightarrow>
              if status \<noteq> ''success'' then show_initial_map dec asciiMap cb st1
              else
                let st2 = st1\<lparr>precomputedStates := states, currentSolution := solutionArray\<rparr>;
                    st3 = (if length (precomputedStates st2) > 1
                           then saveStepByStepSolution (precomputedStates st2) levelId st2 else st2)
                in if length (precomputedStates st3) > 0 then
                     (case displayPrecomputedStep dec 0 cb (st3\<lparr>currentStepIndex := 0\<rparr>) of
                        Threw e st4 \<Rightarrow> show_initial_map dec asciiMap cb st4
                      | Done u st4 \<Rightarrow>
                          Done ()
                            (if length (precomputedStates st4) > 1 \<and> onSolutionReady cb
                             then notify (SolutionReady (int (length (precomputedStates st4)) - 1)) st4
                             else st4))
                   else
                     (case show_initial_map dec asciiMap cb st3 of
                        Threw e st4 \<Rightarrow> show_initial_map dec asciiMap cb st4
                      | Done u st4 \<Rightarrow> Done () st4)
          | _ \<Rightarrow> show_initial_map dec asciiMap cb st1))"

section \<open>The progress stream (script.js)\<close>

text \<open>
  The page keeps one variable, \<^verbatim>\<open>progressEventSource\<close>, for the stream of the batch job
  that is running. The model holds it with the parts of the page its handlers write: the
  status line, the loading indicator, the progress bar, the results table, the metrics
  panel and the alerts shown, and with the streams the browser has open.

  The table is rebuilt from the argument on every \<^verbatim>\<open>displayLevels\<close> call and all six
  metrics are rewritten on every \<^verbatim>\<open>updateMetrics\<close> call, so each is represented by the
  argument of the last call (\<open>None\<close>: cleared by the solve button). The bar's text, width
  and colour are computed in floating point from \<^verbatim>\<open>current\<close> and \<^verbatim>\<open>total\<close>, and are
  represented by these two numbers. The rows of a report and its summary are kept
  abstract.
\<close>

typedecl level_row

typedecl summary

record report =
  levels :: "level_row list option"
  summary_of :: "summary option"
  from_cache :: bool

text \<open>The parsed \<^verbatim>\<open>event.data\<close>.\<close>

record progress_data =
  status :: "string option"
  current :: int
  total_n :: int
  report_of :: "report option"
  error :: "string option"

record ui =
  progressEventSource :: "nat option"
  open_streams :: "nat list"
  streams_opened :: nat
  statusMessage :: string
  loadingIndicator :: bool
  solveBtn_disabled :: bool
  progressContainer :: bool
  progressBar :: "(int \<times> int) option"
  levelsBody :: "level_row list option"
  metrics :: "report option"
  gameViewContainer :: bool
  alerts :: "string list"

text \<open>Decimal digits of a number inside a template string.\<close>

function show_nat :: "nat \<Rightarrow> string" where
  "show_nat n =
     (if n < 10 then [''0123456789'' ! n]
      else show_nat (n div 10) @ [''0123456789'' ! (n mod 10)])"
  by pat_completeness auto
termination
  by (relation "measure (\<lambda>n. n)") auto

declare show_nat.simps [simp del]

definition show_int :: "int \<Rightarrow> string" where
  "show_int i = (if i < 0 then ''-'' @ show_nat (nat (- i)) else show_nat (nat i))"

text \<open>
  \<^verbatim>\<open>
  function setStatus(message, isLoading) {
      statusMessage.textContent = message;
      loadingIndicator.style.display = isLoading ? 'block' : 'none';
      solveBtn.disabled = isLoading;
      if (!isLoading) { progressContainer.style.display = 'none'; }
  }
  \<close>
\<close>

definition setStatus :: "string \<Rightarrow> bool \<Rightarrow> ui \<Rightarrow> ui" where
  "setStatus message isLoading u =
     u\<lparr>statusMessage := message, loadingIndicator := isLoading, solveBtn_disabled := isLoading,
       progressContainer := (if \<not> isLoading then False else progressContainer u)\<rparr>"

definition updateProgressBar :: "int \<Rightarrow> int \<Rightarrow> ui \<Rightarrow> ui" where
  "updateProgressBar c t u = u\<lparr>progressContainer := True, progressBar := Some (c, t)\<rparr>"

definition displayLevels :: "level_row list \<Rightarrow> ui \<Rightarrow> ui" where
  "displayLevels ls u = u\<lparr>levelsBody := Some ls\<rparr>"

definition updateMetrics :: "report \<Rightarrow> ui \<Rightarrow> ui" where
  "updateMetrics r u = u\<lparr>metrics := Some r\<rparr>"

definition alert :: "string \<Rightarrow> ui \<Rightarrow> ui" where
  "alert message u = u\<lparr>alerts := alerts u @ [message]\<rparr>"

text \<open>\<^verbatim>\<open>new EventSource(url)\<close> and \<^verbatim>\<open>es.close()\<close>\<close>

definition new_EventSource :: "ui \<Rightarrow> nat \<times> ui" where
  "new_EventSource u =
     (let es = Suc (streams_opened u)
      in (es, u\<lparr>open_streams := open_streams u @ [es], streams_opened := es\<rparr>))"

definition close_stream :: "nat \<Rightarrow> ui \<Rightarrow> ui" where
  "close_stream es u = u\<lparr>open_streams := filter (\<lambda>e. e \<noteq> es) (open_streams u)\<rparr>"

text \<open>A value inside a template string: \<^verbatim>\<open>undefined\<close> prints as that word.\<close>

definition template_text :: "string option \<Rightarrow> string" where
  "template_text v = (case v of None \<Rightarrow> ''undefined'' | Some s \<Rightarrow> s)"

text \<open>
  \<^verbatim>\<open>
  progressEventSource.onmessage = (event) => {
      const progressData = JSON.parse(event.data);
      if (progressData.status === 'completed') {
          progressEventSource.close();
          progressEventSource = null;
          setStatus("Risoluzione completata.", false);
          return;
      }
      if (progressData.status === 'error') {
          progressEventSource.close();
          progressEventSource = null;
          console.error(...);
          setStatus(`Errore: ${progressData.error}`, false);
          alert(`Si e' verificato un errore: ${progressData.error}`);
          return;
      }
      const current = progressData.current;
      const total = progressData.total;
      const report = progressData.report;
      const fromCache = report && report.from_cache;
      updateProgressBar(current, total);
      if (fromCache) {
          setStatus(`Caricamento risultato dalla cache: ${current}/${total}...`, true);
      } else {
          setStatus(`Elaborazione livello ${current}/${total}...`, true);
      }
      if (report && report.levels) {
          displayLevels(report.levels);
          updateMetrics(report);
          if (fromCache) {
              statusMessage.innerHTML = `Risultati caricati dalla cache: ${current}/${total}
                                         <span class="from-cache">(dalla cache)</span>`;
          }
      }
  };
  \<close>
  (the alert's second word is spelt with an accented letter, code unit \<open>0xE8\<close>). The
  handlers name the stream through the variable, so with \<^verbatim>\<open>null\<close> in it the call of
  \<^verbatim>\<open>close\<close> throws. The event data is taken as parsed.
\<close>

definition onmessage :: "progress_data \<Rightarrow> ui \<Rightarrow> js_error + ui" where
  "onmessage progressData u =
     (if status progressData = Some ''completed'' then
        (case progressEventSource u of
           None \<Rightarrow> Inl TypeError
         | Some es \<Rightarrow>
             Inr (setStatus ''Risoluzione completata.'' False
                    ((close_stream es u)\<lparr>progressEventSource := None\<rparr>)))
      else if status progressData = Some ''error'' then
        (case progressEventSource u of
           None \<Rightarrow> Inl TypeError
         | Some es \<Rightarrow>
             Inr (alert (''Si '' @ [CHR 0xE8] @ '' verificato un errore: '' @ template_text (error progressData))
                    (setStatus (''Errore: '' @ template_text (error progressData)) False
                       ((close_stream es u)\<lparr>progressEventSource := None\<rparr>))))
      else
        let c = current progressData;
            t = total_n progressData;
            fromCache = (case report_of progressData of None \<Rightarrow> False | Some r \<Rightarrow> from_cache r);
            u1 = updateProgressBar c t u;
            u2 = (if fromCache
                  then setStatus (''Caricamento risultato dalla cache: '' @ show_int c @ ''/'' @ show_int t @ ''...'') True u1
                  else setStatus (''Elaborazione livello '' @ show_int c @ ''/'' @ show_int t @ ''...'') True u1)
        in Inr (case report_of progressData of
                  None \<Rightarrow> u2
                | Some r \<Rightarrow>
                    (case levels r of
                       None \<Rightarrow> u2
                     | Some ls \<Rightarrow>
                         let u3 = updateMetrics r (displayLevels ls u2)
                         in if fromCache
                            then u3\<lparr>statusMessage :=
                                     ''Risultati caricati dalla cache: '' @ show_int c @ ''/'' @ show_int t
                                     @ '' <span class='' @ [CHR 0x22] @ ''from-cache'' @ [CHR 0x22]
                                     @ ''>(dalla cache)</span>''\<rparr>
                            else u3)))"

text \<open>
  \<^verbatim>\<open>
  progressEventSource.onerror = (error) => {
      console.error(...);
      progressEventSource.close();
      progressEventSource = null;
      setStatus("Errore nella connessione col server. Riprova.", false);
  };
  \<close>
\<close>

definition onerror :: "ui \<Rightarrow> js_error + ui" where
  "onerror u =
     (case progressEventSource u of
        None \<Rightarrow> Inl TypeError
      | Some es \<Rightarrow>
          Inr (setStatus ''Errore nella connessione col server. Riprova.'' False
                 ((close_stream es u)\<lparr>progressEventSource := None\<rparr>)))"

text \<open>
  The solve button, as far as the stream goes. When clicked it closes the stream it
  finds, then clears the table and the metrics; when the job has been accepted it opens
  the one stream of that job.
  \<^verbatim>\<open>
  if (progressEventSource) { progressEventSource.close(); progressEventSource = null; }
  setStatus(`Avvio risoluzione con ...`, true);
  levelsBody.innerHTML = '';
  totalLevelsEl.textContent = '-'; ...
  gameViewContainer.style.display = 'none';
  progressContainer.style.display = 'block';
  ...
  progressEventSource = new EventSource(`/progress/${sessionId}`);
  \<close>
\<close>

definition solve_clicked :: "string \<Rightarrow> ui \<Rightarrow> ui" where
  "solve_clicked message u =
     (let u1 = (case progressEventSource u of
                  None \<Rightarrow> u
                | Some es \<Rightarrow> (close_stream es u)\<lparr>progressEventSource := None\<rparr>)
      in (setStatus message True u1)\<lparr>levelsBody := None, metrics := None,
            gameViewContainer := False, progressContainer := True\<rparr>)"

definition open_progress :: "ui \<Rightarrow> ui" where
  "open_progress u = (let (es, u1) = new_EventSource u in u1\<lparr>progressEventSource := Some es\<rparr>)"

section \<open>Notions used in the statements\<close>

text \<open>
  The variables of the playback controller and the logs of timers, notifications and
  saves are the same in both states: what a rendering leaves alone.
\<close>

definition controller_kept :: "vis \<Rightarrow> vis \<Rightarrow> bool" where
  "controller_kept st st' =
     (currentSolution st' = currentSolution st \<and> currentStepIndex st' = currentStepIndex st \<and>
      solutionPlayerInterval st' = solutionPlayerInterval st \<and>
      precomputedStates st' = precomputedStates st \<and> timers st' = timers st \<and>
      timer_count st' = timer_count st \<and> notified st' = notified st \<and> saved st' = saved st)"

text \<open>No row of the grid is shorter than its first row.\<close>

definition no_short_row :: "string list list \<Rightarrow> bool" where
  "no_short_row mapArray = list_all (\<lambda>row. length (mapArray ! 0) \<le> length row) mapArray"

text \<open>The drawing operation paints the tile of column \<open>c\<close> and row \<open>r\<close>.\<close>

fun tile_at :: "nat \<Rightarrow> nat \<Rightarrow> canvas_op \<Rightarrow> bool" where
  "tile_at c r (DrawImage img x y) = (x = c * TILE_SIZE \<and> y = r * TILE_SIZE)"
| "tile_at c r (FillRect x y) = (x = c * TILE_SIZE \<and> y = r * TILE_SIZE)"
| "tile_at c r other = False"

text \<open>
  The operations are the tiles of row \<open>r\<close> from column \<open>c\<close> on, left to right; the
  lists of operations are full rows of \<open>numCols\<close> tiles each, from row \<open>r\<close> on.
\<close>

fun tiles_from :: "nat \<Rightarrow> nat \<Rightarrow> canvas_op list \<Rightarrow> bool" where
  "tiles_from c r [] = True"
| "tiles_from c r (x # xs) = (tile_at c r x \<and> tiles_from (Suc c) r xs)"

fun rows_from :: "nat \<Rightarrow> nat \<Rightarrow> canvas_op list list \<Rightarrow> bool" where
  "rows_from numCols r [] = True"
| "rows_from numCols r (x # xs) =
     (length x = numCols \<and> tiles_from 0 r x \<and> rows_from numCols (Suc r) xs)"


text \<open>A session is loaded and the current index names one of its snapshots.\<close>

definition index_in_session :: "vis \<Rightarrow> bool" where
  "index_in_session st =
     (precomputedStates st \<noteq> [] \<and> 0 \<le> currentStepIndex st \<and>
      currentStepIndex st \<le> int (length (precomputedStates st)) - 1)"

text \<open>
  \<open>n\<close> calls of \<open>loadSprite\<close> for one symbol, one after another, each awaited before
  the next is made.
\<close>

fun load_times :: "(nat \<Rightarrow> bool) \<Rightarrow> string \<Rightarrow> nat \<Rightarrow> vis \<Rightarrow> vis" where
  "load_times dec s 0 st = st"
| "load_times dec s (Suc n) st = load_times dec s n (state_of (loadSprite dec (Some s) st))"

text \<open>
  Requests that move the index of a loaded session: a step is displayed, or the timer of
  the player ticks (its callback captured the last index of the session).
\<close>

datatype player_op =
    DisplayOp "nat \<Rightarrow> bool" int callbacks
  | TickOp "nat \<Rightarrow> bool" callbacks

fun run_op :: "player_op \<Rightarrow> vis \<Rightarrow> vis" where
  "run_op (DisplayOp dec j cb) st = state_of (displayStep dec j cb st)"
| "run_op (TickOp dec cb) st = interval_tick dec (maxStepIndex_of st) cb st"

fun run_ops :: "player_op list \<Rightarrow> vis \<Rightarrow> vis" where
  "run_ops [] st = st"
| "run_ops (x # xs) st = run_ops xs (run_op x st)"


section \<open>Concrete inputs\<close>

text \<open>A text with rows of lengths 2, 1, 0 and 3, padded with white space.\<close>

definition ragged_text :: string where
  "ragged_text = ''  ab'' @ [nl] @ ''c'' @ [nl, nl] @ ''def '' @ [nl]"

text \<open>The callbacks of the page: all four are supplied.\<close>

definition visualizationCallbacks :: callbacks where
  "visualizationCallbacks =
     \<lparr>onStepUpdate = True, onSolutionReady = True, onNoSolution = True, onPlaybackEnd = True\<rparr>"

text \<open>Every decode succeeds; every decode fails; only the first decode fails.\<close>

definition all_decoded :: "nat \<Rightarrow> bool" where
  "all_decoded k = True"

definition none_decoded :: "nat \<Rightarrow> bool" where
  "none_decoded k = False"

definition first_fails :: "nat \<Rightarrow> bool" where
  "first_fails k = (k \<noteq> 0)"

text \<open>
  A level of two rows and two columns whose last tile is the empty tile (a space):
  \<^verbatim>\<open>"_b\n_ "\<close>.
\<close>

definition trailing_empty_tile :: string where
  "trailing_empty_tile = ''_b'' @ [nl] @ ''_ ''"

text \<open>
  The answer of the server in the scenario of one move: \<^verbatim>\<open>"__\n_b_\n__"\<close>, then
  \<^verbatim>\<open>"__\n__b\n__"\<close> after the move \<^verbatim>\<open>r\<close>.
\<close>

definition one_move_states :: "game_state list" where
  "one_move_states =
     [\<lparr>move = None, ascii_map = ''__'' @ [nl] @ ''_b_'' @ [nl] @ ''__''\<rparr>,
      \<lparr>move = Some ''r'', ascii_map = ''__'' @ [nl] @ ''__b'' @ [nl] @ ''__''\<rparr>]"

text \<open>The answer for a level without moves: the initial state alone.\<close>

definition no_move_states :: "game_state list" where
  "no_move_states = [\<lparr>move = None, ascii_map = ''_b''\<rparr>]"

text \<open>An answer whose only snapshot is the level above.\<close>

definition short_row_states :: "game_state list" where
  "short_row_states = [\<lparr>move = None, ascii_map = trailing_empty_tile\<rparr>]"

text \<open>The module with the session of one move loaded and nothing displayed yet.\<close>

definition one_move_session :: vis where
  "one_move_session = vis0\<lparr>precomputedStates := one_move_states, currentSolution := [''r'']\<rparr>"

text \<open>The same session with its last step on display, the player paused.\<close>

definition at_the_end :: vis where
  "at_the_end = one_move_session\<lparr>currentStepIndex := 1\<rparr>"

text \<open>The module with the level of the short row as its session.\<close>

definition short_row_session :: vis where
  "short_row_session = vis0\<lparr>precomputedStates := short_row_states\<rparr>"



text \<open>The page with one stream open, a table and metrics from an earlier report.\<close>

definition last_report :: report where
  "last_report = \<lparr>levels = Some [], summary_of = None, from_cache = False\<rparr>"

definition streaming_ui :: ui where
  "streaming_ui =
     \<lparr>progressEventSource = Some 1, open_streams = [1], streams_opened = 1,
      statusMessage = ''Elaborazione livello 1/5...'', loadingIndicator = True,
      solveBtn_disabled = True, progressContainer = True, progressBar = Some (1, 5),
      levelsBody = Some [], metrics = Some last_report, gameViewContainer = False, alerts = []\<rparr>"

definition error_event :: progress_data where
  "error_event = \<lparr>status = Some ''error'', current = 0, total_n = 0, report_of = None,
                  error = Some ''agent crashed''\<rparr>"

section \<open>The decoder\<close>

lemma split_nl_ne: "split_nl s \<noteq> []"
  by (induction s) (auto split: list.splits)

lemma join_split_nl: "join_nl (split_nl s) = s"
proof (induction s)
  case Nil show ?case by simp
next
  case (Cons c cs)
  obtain r rs where rs: "split_nl cs = r # rs" using split_nl_ne[of cs] by (cases "split_nl cs") auto
  show ?case using Cons rs by (cases rs) auto
qed

lemma split_nl_no_nl: "list_all (\<lambda>r. nl \<notin> set r) (split_nl s)"
  by (induction s) (auto split: list.splits)

lemma length_split_nl: "length (split_nl s) = Suc (count_list s nl)"
  by (induction s) (auto split: list.splits)

lemma trim_decomp: "s = takeWhile is_js_space s @ trim s @ rev (takeWhile is_js_space (rev (dropWhile is_js_space s)))"
  unfolding trim_def
  by (metis rev_append rev_rev_ident takeWhile_dropWhile_id)

lemma trim_ends:
  assumes "trim s \<noteq> []"
  shows "\<not> is_js_space (hd (trim s))" and "\<not> is_js_space (last (trim s))"
proof -
  let ?d = "dropWhile is_js_space s"
  let ?e = "dropWhile is_js_space (rev ?d)"
  have e: "?e \<noteq> []" using assms by (simp add: trim_def)
  then have d: "?d \<noteq> []" by (metis dropWhile.simps(1) rev.simps(1))
  have "last (trim s) = hd ?e" using e by (simp add: trim_def last_rev)
  then show "\<not> is_js_space (last (trim s))" using e hd_dropWhile[of is_js_space "rev ?d"] by simp
  have "hd (trim s) = last ?e" using e by (simp add: trim_def hd_rev)
  also have "\<dots> = last (rev ?d)"
    by (metis e last_appendR takeWhile_dropWhile_id)
  also have "\<dots> = hd ?d" using d by (simp add: last_rev)
  finally show "\<not> is_js_space (hd (trim s))" using d hd_dropWhile[of is_js_space s] by simp
qed

lemma concat_split_chars: "concat (split_chars r) = r"
  by (induction r) (auto simp: split_chars_def)

lemma cells_split_chars: "list_all (\<lambda>cell. length cell = 1) (split_chars r)"
  by (simp add: split_chars_def list_all_iff)

text \<open>
  Claim C9. \<open>parseAsciiMap\<close> is a function of the text alone (it takes no state and
  returns none) and has a grid for every text, with no error value. For the empty text
  the grid is empty. Otherwise the text is white space, then the trimmed text, then
  white space, and the trimmed text neither begins nor ends with white space; the grid
  has one row for each line of the trimmed text, every cell is a single character, no
  cell is a line feed, and the rows joined by line feeds give the trimmed text back, so
  every row has exactly the length of its line, whatever the lengths of the others.
\<close>

theorem parseAsciiMap_decodes:
  "(asciiMap = [] \<longrightarrow> parseAsciiMap asciiMap = []) \<and>
   (asciiMap \<noteq> [] \<longrightarrow>
      (\<exists>pre post. asciiMap = pre @ trim asciiMap @ post \<and> list_all is_js_space pre \<and> list_all is_js_space post) \<and>
      (trim asciiMap \<noteq> [] \<longrightarrow> \<not> is_js_space (hd (trim asciiMap)) \<and> \<not> is_js_space (last (trim asciiMap))) \<and>
      length (parseAsciiMap asciiMap) = Suc (count_list (trim asciiMap) nl) \<and>
      map concat (parseAsciiMap asciiMap) = split_nl (trim asciiMap) \<and>
      join_nl (map concat (parseAsciiMap asciiMap)) = trim asciiMap \<and>
      list_all (\<lambda>row. nl \<notin> set (concat row) \<and> list_all (\<lambda>cell. length cell = 1) row) (parseAsciiMap asciiMap))"
proof -
  have pre: "list_all is_js_space (takeWhile is_js_space asciiMap)"
    by (simp add: list_all_iff) (meson set_takeWhileD)
  have post: "list_all is_js_space (rev (takeWhile is_js_space (rev (dropWhile is_js_space asciiMap))))"
    by (simp add: list_all_iff) (meson set_takeWhileD)
  have dec: "\<exists>pre post. asciiMap = pre @ trim asciiMap @ post \<and> list_all is_js_space pre \<and> list_all is_js_space post"
    using trim_decomp[of asciiMap] pre post by blast
  have mc: "map concat (map split_chars rs) = rs" for rs
    by (induction rs) (simp_all add: concat_split_chars)
  have rows: "list_all (\<lambda>row. nl \<notin> set (concat row) \<and> list_all (\<lambda>cell. length cell = 1) row)
                (map split_chars (split_nl s))" for s
  proof -
    have "nl \<notin> set (concat (split_chars r)) \<and> list_all (\<lambda>cell. length cell = 1) (split_chars r)"
      if "nl \<notin> set r" for r
      using that by (simp only: concat_split_chars cells_split_chars simp_thms)
    then show ?thesis
      using split_nl_no_nl[of s] unfolding list_all_iff set_map by blast
  qed
  have empty: "asciiMap = [] \<longrightarrow> parseAsciiMap asciiMap = []"
    by (simp add: parseAsciiMap_def)
  have full: "length (parseAsciiMap asciiMap) = Suc (count_list (trim asciiMap) nl) \<and>
      map concat (parseAsciiMap asciiMap) = split_nl (trim asciiMap) \<and>
      join_nl (map concat (parseAsciiMap asciiMap)) = trim asciiMap \<and>
      list_all (\<lambda>row. nl \<notin> set (concat row) \<and> list_all (\<lambda>cell. length cell = 1) row)
        (parseAsciiMap asciiMap)"
    if ne: "asciiMap \<noteq> []"
  proof -
    have p: "parseAsciiMap asciiMap = map split_chars (split_nl (trim asciiMap))"
      using ne by (simp add: parseAsciiMap_def)
    show ?thesis
      unfolding p using rows[of "trim asciiMap"]
      by (simp only: mc join_split_nl length_map length_split_nl simp_thms)
  qed
  show ?thesis
    using empty dec trim_ends[of asciiMap] full by blast
qed

text \<open>A text whose rows have the lengths 2, 1, 0 and 3.\<close>

theorem parseAsciiMap_decodes_witness:
  "ragged_text \<noteq> [] \<and> trim ragged_text \<noteq> [] \<and>
   parseAsciiMap ragged_text = [[''a'', ''b''], [''c''], [], [''d'', ''e'', ''f'']] \<and>
   join_nl (map concat (parseAsciiMap ragged_text)) = trim ragged_text \<and>
   length (parseAsciiMap ragged_text) = Suc (count_list (trim ragged_text) nl)"
  using parseAsciiMap_decodes [of ragged_text]
  by (simp add: ragged_text_def parseAsciiMap_def trim_def is_js_space_def nl_def split_chars_def)

section \<open>Evaluating the model on concrete inputs\<close>

lemmas eval_defs = parseAsciiMap_def trim_def is_js_space_def nl_def split_chars_def
  drawMap_def draw_rows.simps draw_cells.simps loadSprite_def loadSprite_start_def
  loadSprite_settle_def start_load_def prop_key_def MAP_SPRITES_def endsWith_def
  SPRITE_BASE_PATH_def TILE_SIZE_def paint_def cell_def vis0_def
  displayStep_def displayPrecomputedStep_def notify_def toggleSolutionPlayback_def
  maxStepIndex_of_def setInterval_def clearInterval_def visualizationCallbacks_def
  all_decoded_def none_decoded_def first_fails_def
  one_move_session_def one_move_states_def no_move_states_def
  short_row_session_def short_row_states_def trailing_empty_tile_def
  showGameView_def show_initial_map_def stop_player_def saveStepByStepSolution_def

section \<open>Rendering\<close>

subsection \<open>Rendering leaves the controller alone\<close>

lemma controller_kept_refl: "controller_kept st st"
  by (simp add: controller_kept_def)

lemma controller_kept_trans:
  "controller_kept a b \<Longrightarrow> controller_kept b c \<Longrightarrow> controller_kept a c"
  by (simp add: controller_kept_def)

lemma controller_kept_paint: "controller_kept st (paint op st)"
  by (simp add: controller_kept_def paint_def)

lemma loadSprite_start_kept: "controller_kept st (state_of (loadSprite_start n st))"
  by (simp add: loadSprite_start_def start_load_def controller_kept_def
           split: option.splits)

lemma loadSprite_kept: "controller_kept st (state_of (loadSprite dec n st))"
  by (simp add: loadSprite_def loadSprite_start_def loadSprite_settle_def start_load_def
        controller_kept_def split: option.splits)

lemma draw_cells_kept: "controller_kept st (state_of (draw_cells dec row r numCols c st))"
proof (induction dec row r numCols c st rule: draw_cells.induct)
  case (1 dec row r numCols c st)
  show ?case
  proof (cases "c < numCols")
    case False
    then show ?thesis by (simp add: draw_cells.simps controller_kept_refl)
  next
    case True
    show ?thesis
    proof (cases "loadSprite dec (cell row c) st")
      case (Threw e st')
      then show ?thesis
        using True loadSprite_kept[of st dec "cell row c"] by (simp add: draw_cells.simps)
    next
      case (Done img st')
      let ?st'' = "case img of Some i \<Rightarrow> paint (DrawImage i (c * TILE_SIZE) (r * TILE_SIZE)) st'
                   | None \<Rightarrow> paint (FillRect (c * TILE_SIZE) (r * TILE_SIZE)) st'"
      have a: "controller_kept st st'"
        using loadSprite_kept[of st dec "cell row c"] Done by simp
      have b: "controller_kept st' ?st''"
        by (cases img) (simp_all add: controller_kept_paint)
      have c: "controller_kept ?st'' (state_of (draw_cells dec row r numCols (Suc c) ?st''))"
        using "1.IH"[OF True Done] .
      have "draw_cells dec row r numCols c st = draw_cells dec row r numCols (Suc c) ?st''"
        using True Done by (simp add: draw_cells.simps[of dec row r numCols c])
      then show ?thesis
        using controller_kept_trans[OF controller_kept_trans[OF a b] c] by simp
    qed
  qed
qed

lemma draw_rows_kept:
  "controller_kept st (state_of (draw_rows dec mapArray numRows numCols r st))"
proof (induction dec mapArray numRows numCols r st rule: draw_rows.induct)
  case (1 dec mapArray numRows numCols r st)
  show ?case
  proof (cases "r < numRows")
    case False
    then show ?thesis by (simp add: draw_rows.simps controller_kept_refl)
  next
    case True
    show ?thesis
    proof (cases "draw_cells dec (mapArray ! r) r numCols 0 st")
      case (Threw e st')
      then show ?thesis
        using True draw_cells_kept[of st dec "mapArray ! r" r numCols 0]
        by (simp add: draw_rows.simps)
    next
      case (Done u st')
      have a: "controller_kept st st'"
        using draw_cells_kept[of st dec "mapArray ! r" r numCols 0] Done by simp
      have "draw_rows dec mapArray numRows numCols r st
              = draw_rows dec mapArray numRows numCols (Suc r) st'"
        using True Done by (simp add: draw_rows.simps[of dec mapArray numRows numCols r])
      then show ?thesis
        using controller_kept_trans[OF a "1.IH"[OF True Done]] by simp
    qed
  qed
qed

lemma drawMap_kept: "controller_kept st (state_of (drawMap dec mapArray st))"
proof (cases "mapArray = []")
  case True
  then show ?thesis by (simp add: drawMap_def controller_kept_def paint_def)
next
  case False
  let ?st1 = "paint ClearRect (paint (SetSize (length (mapArray ! 0) * TILE_SIZE) (length mapArray * TILE_SIZE)) st)"
  have a: "controller_kept st ?st1" by (simp add: controller_kept_def paint_def)
  show ?thesis
    using False controller_kept_trans[OF a draw_rows_kept[of ?st1 dec mapArray "length mapArray" "length (mapArray ! 0)" 0]]
    by (simp add: drawMap_def Let_def)
qed

subsection \<open>Rendering a grid without short rows does not throw\<close>

lemma loadSprite_defined: "\<not> threw (loadSprite dec (Some s) st)"
  by (simp add: loadSprite_def loadSprite_start_def loadSprite_settle_def start_load_def
        prop_key_def split: option.splits)

lemma loadSprite_undefined:
  "SPRITE_IMAGES st ''undefined'' = None \<Longrightarrow> loadSprite dec None st = Threw TypeError st"
  by (simp add: loadSprite_def loadSprite_start_def prop_key_def split: option.splits)

lemma draw_cells_no_throw:
  "numCols \<le> length row \<Longrightarrow> \<not> threw (draw_cells dec row r numCols c st)"
proof (induction dec row r numCols c st rule: draw_cells.induct)
  case (1 dec row r numCols c st)
  show ?case
  proof (cases "c < numCols")
    case False
    then show ?thesis by (simp add: draw_cells.simps)
  next
    case True
    then have cell: "cell row c = Some (row ! c)" using "1.prems" by (simp add: cell_def)
    obtain img st' where d: "loadSprite dec (Some (row ! c)) st = Done img st'"
      using loadSprite_defined[of dec "row ! c" st]
      by (cases "loadSprite dec (Some (row ! c)) st") auto
    show ?thesis
      using True cell d "1.IH"[OF True d[folded cell] "1.prems"]
      by (simp add: draw_cells.simps[of dec row r numCols c])
  qed
qed

lemma draw_rows_no_throw:
  "(\<And>i. r \<le> i \<Longrightarrow> i < numRows \<Longrightarrow> numCols \<le> length (mapArray ! i))
     \<Longrightarrow> \<not> threw (draw_rows dec mapArray numRows numCols r st)"
proof (induction dec mapArray numRows numCols r st rule: draw_rows.induct)
  case (1 dec mapArray numRows numCols r st)
  show ?case
  proof (cases "r < numRows")
    case False
    then show ?thesis by (simp add: draw_rows.simps)
  next
    case True
    obtain u st' where d: "draw_cells dec (mapArray ! r) r numCols 0 st = Done u st'"
      using draw_cells_no_throw[of numCols "mapArray ! r" dec r 0 st] "1.prems"[of r] True
      by (cases "draw_cells dec (mapArray ! r) r numCols 0 st") auto
    have "\<not> threw (draw_rows dec mapArray numRows numCols (Suc r) st')"
      using "1.IH"[OF True d] "1.prems" by simp
    then show ?thesis
      using True d by (simp add: draw_rows.simps[of dec mapArray numRows numCols r])
  qed
qed

lemma drawMap_no_throw:
  assumes "no_short_row mapArray"
  shows "\<not> threw (drawMap dec mapArray st)"
proof (cases "mapArray = []")
  case True
  then show ?thesis by (simp add: drawMap_def)
next
  case False
  have "length (mapArray ! 0) \<le> length (mapArray ! i)" if "i < length mapArray" for i
    using assms that by (simp add: no_short_row_def list_all_length)
  then show ?thesis
    using False draw_rows_no_throw[of 0 "length mapArray" "length (mapArray ! 0)" mapArray]
    by (simp add: drawMap_def Let_def)
qed

lemma drawMap_returns:
  "no_short_row mapArray \<Longrightarrow> \<exists>st'. drawMap dec mapArray st = Done () st'"
  using drawMap_no_throw[of mapArray dec st] by (cases "drawMap dec mapArray st") auto

subsection \<open>Every tile of such a grid is painted\<close>

lemma loadSprite_canvas: "canvas (state_of (loadSprite dec n st)) = canvas st"
  by (simp add: loadSprite_def loadSprite_start_def loadSprite_settle_def start_load_def
        split: option.splits)

lemma draw_cells_tiles:
  "numCols \<le> length row \<Longrightarrow> c \<le> numCols \<Longrightarrow>
   \<exists>ops. canvas (state_of (draw_cells dec row r numCols c st)) = canvas st @ ops \<and>
         length ops = numCols - c \<and> tiles_from c r ops"
proof (induction dec row r numCols c st rule: draw_cells.induct)
  case (1 dec row r numCols c st)
  show ?case
  proof (cases "c < numCols")
    case False
    then show ?thesis using "1.prems" by (simp add: draw_cells.simps)
  next
    case True
    then have cell: "cell row c = Some (row ! c)" using "1.prems" by (simp add: cell_def)
    obtain img st' where d: "loadSprite dec (cell row c) st = Done img st'"
      using loadSprite_defined[of dec "row ! c" st] cell
      by (cases "loadSprite dec (cell row c) st") auto
    have cv: "canvas st' = canvas st" using loadSprite_canvas[of dec "cell row c" st] d by simp
    let ?op = "case img of Some i \<Rightarrow> DrawImage i (c * TILE_SIZE) (r * TILE_SIZE)
               | None \<Rightarrow> FillRect (c * TILE_SIZE) (r * TILE_SIZE)"
    let ?st'' = "case img of Some i \<Rightarrow> paint (DrawImage i (c * TILE_SIZE) (r * TILE_SIZE)) st'
                 | None \<Rightarrow> paint (FillRect (c * TILE_SIZE) (r * TILE_SIZE)) st'"
    have t: "tile_at c r ?op" by (cases img) simp_all
    have cv': "canvas ?st'' = canvas st @ [?op]" using cv by (cases img) (simp_all add: paint_def)
    obtain ops where o: "canvas (state_of (draw_cells dec row r numCols (Suc c) ?st'')) = canvas ?st'' @ ops"
        "length ops = numCols - Suc c" "tiles_from (Suc c) r ops"
      using "1.IH"[OF True d] "1.prems" True by auto
    have e: "draw_cells dec row r numCols c st = draw_cells dec row r numCols (Suc c) ?st''"
      using True d by (simp add: draw_cells.simps[of dec row r numCols c])
    have "canvas (state_of (draw_cells dec row r numCols c st)) = canvas st @ (?op # ops) \<and>
          length (?op # ops) = numCols - c \<and> tiles_from c r (?op # ops)"
      using e o cv' t True by simp
    then show ?thesis by blast
  qed
qed

lemma draw_rows_tiles:
  "(\<And>i. r \<le> i \<Longrightarrow> i < numRows \<Longrightarrow> numCols \<le> length (mapArray ! i)) \<Longrightarrow> r \<le> numRows \<Longrightarrow>
   \<exists>rows. canvas (state_of (draw_rows dec mapArray numRows numCols r st)) = canvas st @ concat rows \<and>
          length rows = numRows - r \<and> rows_from numCols r rows"
proof (induction dec mapArray numRows numCols r st rule: draw_rows.induct)
  case (1 dec mapArray numRows numCols r st)
  show ?case
  proof (cases "r < numRows")
    case False
    then have "canvas (state_of (draw_rows dec mapArray numRows numCols r st)) = canvas st @ concat [] \<and>
          length ([]::canvas_op list list) = numRows - r \<and> rows_from numCols r []"
      using "1.prems" by (simp add: draw_rows.simps)
    then show ?thesis by blast
  next
    case True
    have le: "numCols \<le> length (mapArray ! r)" using "1.prems"(1)[of r] True by simp
    obtain u st' where d: "draw_cells dec (mapArray ! r) r numCols 0 st = Done u st'"
      using draw_cells_no_throw[OF le, of dec r 0 st]
      by (cases "draw_cells dec (mapArray ! r) r numCols 0 st") auto
    obtain ops where o: "canvas st' = canvas st @ ops" "length ops = numCols" "tiles_from 0 r ops"
      using draw_cells_tiles[OF le, of 0 dec r st] d by auto
    obtain rows where rs: "canvas (state_of (draw_rows dec mapArray numRows numCols (Suc r) st')) = canvas st' @ concat rows"
        "length rows = numRows - Suc r" "rows_from numCols (Suc r) rows"
      using "1.IH"[OF True d] "1.prems" True by auto
    have e: "draw_rows dec mapArray numRows numCols r st = draw_rows dec mapArray numRows numCols (Suc r) st'"
      using True d by (simp add: draw_rows.simps[of dec mapArray numRows numCols r])
    have "canvas (state_of (draw_rows dec mapArray numRows numCols r st)) = canvas st @ concat (ops # rows) \<and>
          length (ops # rows) = numRows - r \<and> rows_from numCols r (ops # rows)"
      using e o rs True by simp
    then show ?thesis by blast
  qed
qed

lemma drawMap_tiles:
  assumes "mapArray \<noteq> []" and "no_short_row mapArray"
  shows "\<exists>st' rows. drawMap dec mapArray st = Done () st' \<and>
           canvas st' = canvas st @ SetSize (length (mapArray ! 0) * TILE_SIZE) (length mapArray * TILE_SIZE)
                           # ClearRect # concat rows \<and>
           length rows = length mapArray \<and> rows_from (length (mapArray ! 0)) 0 rows"
proof -
  let ?st1 = "paint ClearRect (paint (SetSize (length (mapArray ! 0) * TILE_SIZE) (length mapArray * TILE_SIZE)) st)"
  have le: "length (mapArray ! 0) \<le> length (mapArray ! i)" if "i < length mapArray" for i
    using assms(2) that by (simp add: no_short_row_def list_all_length)
  have e: "drawMap dec mapArray st = draw_rows dec mapArray (length mapArray) (length (mapArray ! 0)) 0 ?st1"
    using assms(1) by (simp add: drawMap_def Let_def)
  obtain st' where d: "drawMap dec mapArray st = Done () st'"
    using drawMap_no_throw[OF assms(2), of dec st] by (cases "drawMap dec mapArray st") auto
  obtain rows where rs: "canvas (state_of (draw_rows dec mapArray (length mapArray) (length (mapArray ! 0)) 0 ?st1))
        = canvas ?st1 @ concat rows" "length rows = length mapArray - 0" "rows_from (length (mapArray ! 0)) 0 rows"
    using draw_rows_tiles[of 0 "length mapArray" "length (mapArray ! 0)" mapArray dec ?st1] le by auto
  have "canvas st' = canvas st @ SetSize (length (mapArray ! 0) * TILE_SIZE) (length mapArray * TILE_SIZE)
                           # ClearRect # concat rows"
    using rs(1) d e by (simp add: paint_def)
  then show ?thesis using d rs by auto
qed

subsection \<open>A row shorter than the first\<close>

text \<open>
  Claim C4 says that \<open>drawMap\<close> paints every cell with its sprite or with the fallback
  rectangle and never throws, also for an unknown character and for a grid with a row
  shorter or longer than the first. For a grid with no row shorter than the first,
  \<open>drawMap_tiles\<close> above shows that nothing is thrown and that every cell in the columns
  of the first row is painted (what a longer row has beyond them is not visited). On
  the level \<^verbatim>\<open>"_b\n_ "\<close> the claim fails: the decoder trims the final space, the second
  row has one cell, the cell read at row 1 and column 1 is \<^verbatim>\<open>undefined\<close>, and
  \<open>loadSprite\<close> throws a \<^verbatim>\<open>TypeError\<close> when it calls \<^verbatim>\<open>endsWith\<close> on it. Three tiles
  have been painted by then.
\<close>

theorem drawMap_short_row_throws:
  "parseAsciiMap trailing_empty_tile = [[''_'', ''b''], [''_'']] \<and>
   threw (drawMap all_decoded (parseAsciiMap trailing_empty_tile) vis0) \<and>
   canvas (state_of (drawMap all_decoded (parseAsciiMap trailing_empty_tile) vis0)) =
     [SetSize 40 40, ClearRect,
      DrawImage (Image ''/static/img/border.png'') 0 0,
      DrawImage (Image ''/static/img/baba_obj.png'') 20 0,
      DrawImage (Image ''/static/img/border.png'') 0 20]"
  by (simp add: eval_defs)

section \<open>The sprite cache\<close>

lemma loadSprite_start_loads:
  assumes "SPRITE_IMAGES st s = None" and "MAP_SPRITES s \<noteq> None \<or> endsWith s ''.png''"
  shows "\<exists>src. loadSprite_start (Some s) st = Done (Awaiting s (Image src)) (st\<lparr>loads := loads st @ [src]\<rparr>)"
  using assms
  by (auto simp: loadSprite_start_def start_load_def prop_key_def split: option.splits)

lemma loadSprite_start_src:
  "loadSprite_start (Some s) st = Done (Awaiting s (Image src)) st1 \<Longrightarrow>
   SPRITE_IMAGES st' s = None \<Longrightarrow>
   loadSprite_start (Some s) st' = Done (Awaiting s (Image src)) (st'\<lparr>loads := loads st' @ [src]\<rparr>)"
  by (auto simp: loadSprite_start_def start_load_def prop_key_def split: option.splits if_splits)

text \<open>
  Claim C1, as amended. The module keeps no record of a load that is under way. For a
  symbol that is not in the cache and has a file (a mapped character or a name ending in
  \<^verbatim>\<open>.png\<close>), two calls of \<open>loadSprite\<close> made before the first load has settled each
  start a load of the same source: two loads are started, and both calls wait. Only a
  call made after a load of that symbol has succeeded is served from the cache, and it
  starts no load.
\<close>

theorem loads_not_coalesced:
  assumes "SPRITE_IMAGES st s = None" and "MAP_SPRITES s \<noteq> None \<or> endsWith s ''.png''"
  shows "\<exists>src st1 st2.
           loadSprite_start (Some s) st = Done (Awaiting s (Image src)) st1 \<and>
           loadSprite_start (Some s) st1 = Done (Awaiting s (Image src)) st2 \<and>
           loads st1 = loads st @ [src] \<and> loads st2 = loads st @ [src, src] \<and>
           SPRITE_IMAGES st2 = SPRITE_IMAGES st \<and>
           loadSprite_start (Some s) (state_of (loadSprite_settle True s (Image src) st2)) =
             Done (Resolved (Some (Image src))) (state_of (loadSprite_settle True s (Image src) st2)) \<and>
           loads (state_of (loadSprite_settle True s (Image src) st2)) = loads st @ [src, src]"
proof -
  obtain src where
    a: "loadSprite_start (Some s) st = Done (Awaiting s (Image src)) (st\<lparr>loads := loads st @ [src]\<rparr>)"
    using loadSprite_start_loads[OF assms] by blast
  let ?st1 = "st\<lparr>loads := loads st @ [src]\<rparr>"
  have b: "loadSprite_start (Some s) ?st1 = Done (Awaiting s (Image src)) (?st1\<lparr>loads := loads ?st1 @ [src]\<rparr>)"
    using loadSprite_start_src[OF a, of ?st1] assms(1) by simp
  let ?st2 = "?st1\<lparr>loads := loads ?st1 @ [src]\<rparr>"
  have c: "loadSprite_start (Some s) (state_of (loadSprite_settle True s (Image src) ?st2)) =
             Done (Resolved (Some (Image src))) (state_of (loadSprite_settle True s (Image src) ?st2))"
    by (simp add: loadSprite_settle_def loadSprite_start_def prop_key_def)
  have d: "loads (state_of (loadSprite_settle True s (Image src) ?st2)) = loads st @ [src, src]"
    by (simp add: loadSprite_settle_def)
  show ?thesis using a b c d by (intro exI[of _ src] exI[of _ ?st1] exI[of _ ?st2]) simp
qed

theorem loads_not_coalesced_witness:
  "SPRITE_IMAGES vis0 ''b'' = None \<and> MAP_SPRITES ''b'' = Some ''baba_obj.png'' \<and>
   loads (state_of (loadSprite_start (Some ''b'') (state_of (loadSprite_start (Some ''b'') vis0)))) =
     [''/static/img/baba_obj.png'', ''/static/img/baba_obj.png'']"
proof -
  have a: "SPRITE_IMAGES vis0 ''b'' = None" by (simp add: vis0_def)
  have m: "MAP_SPRITES ''b'' = Some ''baba_obj.png''" by (simp add: MAP_SPRITES_def)
  then have b: "MAP_SPRITES ''b'' \<noteq> None \<or> endsWith ''b'' ''.png''" by simp
  have l: "loads vis0 = []" by (simp add: vis0_def)
  obtain src st1 st2 where
    s1: "loadSprite_start (Some ''b'') vis0 = Done (Awaiting ''b'' (Image src)) st1" and
    s2: "loadSprite_start (Some ''b'') st1 = Done (Awaiting ''b'' (Image src)) st2" and
    l2: "loads st2 = loads vis0 @ [src, src]"
    using loads_not_coalesced [OF a b] by blast
  have "src = ''/static/img/baba_obj.png''"
    using s1 by (simp add: loadSprite_start_def start_load_def prop_key_def m vis0_def
                   endsWith_def SPRITE_BASE_PATH_def)
  then show ?thesis using a m s1 s2 l2 l by simp
qed

text \<open>
  Claim C1 as stated fails: two calls for \<^verbatim>\<open>b\<close> before any load has settled start two
  loads of \<^verbatim>\<open>baba_obj.png\<close>.
\<close>

theorem concurrent_loads_counterexample:
  "loadSprite_start (Some ''b'') vis0 =
     Done (Awaiting ''b'' (Image ''/static/img/baba_obj.png''))
       (vis0\<lparr>loads := [''/static/img/baba_obj.png'']\<rparr>) \<and>
   loadSprite_start (Some ''b'') (vis0\<lparr>loads := [''/static/img/baba_obj.png'']\<rparr>) =
     Done (Awaiting ''b'' (Image ''/static/img/baba_obj.png''))
       (vis0\<lparr>loads := [''/static/img/baba_obj.png'', ''/static/img/baba_obj.png'']\<rparr>) \<and>
   length (loads (vis0\<lparr>loads := [''/static/img/baba_obj.png'', ''/static/img/baba_obj.png'']\<rparr>)) = 2"
  by (simp add: loadSprite_start_def start_load_def prop_key_def MAP_SPRITES_def vis0_def
        endsWith_def SPRITE_BASE_PATH_def)

lemma loadSprite_uncached:
  assumes "loadSprite_start (Some s) st = Done (Awaiting s (Image src)) st1"
      and "SPRITE_IMAGES st' s = None"
  shows "loadSprite dec (Some s) st' =
           Done (if dec (length (loads st')) then Some (Image src) else None)
             (if dec (length (loads st'))
              then st'\<lparr>loads := loads st' @ [src],
                       SPRITE_IMAGES := (SPRITE_IMAGES st')(s \<mapsto> Image src)\<rparr>
              else st'\<lparr>loads := loads st' @ [src]\<rparr>)"
  using loadSprite_start_src[OF assms]
  by (simp add: loadSprite_def loadSprite_settle_def)

lemma loadSprite_cached:
  "SPRITE_IMAGES st' s = Some img \<Longrightarrow> loadSprite dec (Some s) st' = Done (Some img) st'"
  by (simp add: loadSprite_def loadSprite_start_def prop_key_def)

lemma load_times_failing:
  assumes "loadSprite_start (Some s) st0 = Done (Awaiting s (Image src)) st1"
  shows "SPRITE_IMAGES st s = None \<Longrightarrow> (\<forall>k<n. \<not> dec (length (loads st) + k)) \<Longrightarrow>
         loads (load_times dec s n st) = loads st @ replicate n src \<and>
         SPRITE_IMAGES (load_times dec s n st) = SPRITE_IMAGES st"
proof (induction n arbitrary: st)
  case 0
  then show ?case by simp
next
  case (Suc n)
  have f: "\<not> dec (length (loads st))" using Suc.prems(2) by force
  let ?st' = "st\<lparr>loads := loads st @ [src]\<rparr>"
  have c: "loadSprite dec (Some s) st = Done None ?st'"
    using loadSprite_uncached[OF assms Suc.prems(1), of dec] f by simp
  have u: "SPRITE_IMAGES ?st' s = None" using Suc.prems(1) by simp
  have r: "\<forall>k<n. \<not> dec (length (loads ?st') + k)"
  proof (intro allI impI)
    fix k assume "k < n"
    then have "Suc k < Suc n" by simp
    then have "\<not> dec (length (loads st) + Suc k)" using Suc.prems(2) by blast
    then show "\<not> dec (length (loads ?st') + k)" by simp
  qed
  have "loads (load_times dec s n ?st') = loads ?st' @ replicate n src \<and>
        SPRITE_IMAGES (load_times dec s n ?st') = SPRITE_IMAGES ?st'"
    using Suc.IH[OF u r] .
  then show ?case using c by (simp add: replicate_app_Cons_same)
qed

text \<open>
  Claim C2, as amended. When the load of a symbol fails, that call returns \<^verbatim>\<open>null\<close> and
  the cache is left as it was: nothing marks the symbol as failed. Every later call for
  the symbol that is made while the symbol is still not in the cache (no load of it has
  succeeded) starts a new load of the same source and returns \<^verbatim>\<open>null\<close> only if that
  load fails as well; so \<open>n\<close> calls in a row whose loads all fail start \<open>n\<close> loads and
  leave the cache as it was. When a load succeeds, that call returns the image and puts
  it in the cache, and a call made while the symbol is in the cache returns the cached
  image and starts no load.
\<close>

theorem failed_load_is_retried:
  assumes "SPRITE_IMAGES st s = None" and "MAP_SPRITES s \<noteq> None \<or> endsWith s ''.png''"
      and "\<not> dec (length (loads st))"
  shows "\<exists>src st1 st2.
           loadSprite dec (Some s) st = Done None st1 \<and>
           SPRITE_IMAGES st1 = SPRITE_IMAGES st \<and> loads st1 = loads st @ [src] \<and>
           loadSprite dec (Some s) st1 =
             Done (if dec (Suc (length (loads st))) then Some (Image src) else None) st2 \<and>
           loads st2 = loads st @ [src, src] \<and>
           (\<forall>st'. SPRITE_IMAGES st' s = None \<longrightarrow>
              (\<exists>st''. loadSprite dec (Some s) st' =
                        Done (if dec (length (loads st')) then Some (Image src) else None) st'' \<and>
                      loads st'' = loads st' @ [src] \<and>
                      SPRITE_IMAGES st'' =
                        (if dec (length (loads st')) then (SPRITE_IMAGES st')(s \<mapsto> Image src)
                         else SPRITE_IMAGES st'))) \<and>
           (\<forall>st' img. SPRITE_IMAGES st' s = Some img \<longrightarrow>
              loadSprite dec (Some s) st' = Done (Some img) st') \<and>
           (\<forall>n. (\<forall>k<n. \<not> dec (length (loads st) + k)) \<longrightarrow>
              loads (load_times dec s n st) = loads st @ replicate n src \<and>
              SPRITE_IMAGES (load_times dec s n st) = SPRITE_IMAGES st)"
proof -
  obtain src where
    a: "loadSprite_start (Some s) st = Done (Awaiting s (Image src)) (st\<lparr>loads := loads st @ [src]\<rparr>)"
    using loadSprite_start_loads[OF assms(1,2)] by blast
  let ?st1 = "st\<lparr>loads := loads st @ [src]\<rparr>"
  have l1: "loadSprite dec (Some s) st = Done None ?st1"
    using a assms(3) by (simp add: loadSprite_def loadSprite_settle_def)
  have b: "loadSprite_start (Some s) ?st1 = Done (Awaiting s (Image src)) (?st1\<lparr>loads := loads ?st1 @ [src]\<rparr>)"
    using loadSprite_start_src[OF a, of ?st1] assms(1) by simp
  let ?st2 = "state_of (loadSprite dec (Some s) ?st1)"
  have l2: "loadSprite dec (Some s) ?st1 =
             Done (if dec (Suc (length (loads st))) then Some (Image src) else None) ?st2 \<and>
            loads ?st2 = loads st @ [src, src]"
    using b by (simp add: loadSprite_def loadSprite_settle_def)
  have later: "\<exists>st''. loadSprite dec (Some s) st' =
                        Done (if dec (length (loads st')) then Some (Image src) else None) st'' \<and>
                      loads st'' = loads st' @ [src] \<and>
                      SPRITE_IMAGES st'' =
                        (if dec (length (loads st')) then (SPRITE_IMAGES st')(s \<mapsto> Image src)
                         else SPRITE_IMAGES st')"
    if "SPRITE_IMAGES st' s = None" for st'
    using loadSprite_uncached[OF a that, of dec] by (cases "dec (length (loads st'))") simp_all
  have cached: "loadSprite dec (Some s) st' = Done (Some img) st'"
    if "SPRITE_IMAGES st' s = Some img" for st' img
    using that by (rule loadSprite_cached)
  have many: "loads (load_times dec s n st) = loads st @ replicate n src \<and>
              SPRITE_IMAGES (load_times dec s n st) = SPRITE_IMAGES st"
    if "\<forall>k<n. \<not> dec (length (loads st) + k)" for n
    using load_times_failing[OF a assms(1) that] .
  have first: "loadSprite dec (Some s) st = Done None ?st1 \<and>
           SPRITE_IMAGES ?st1 = SPRITE_IMAGES st \<and> loads ?st1 = loads st @ [src] \<and>
           loadSprite dec (Some s) ?st1 =
             Done (if dec (Suc (length (loads st))) then Some (Image src) else None) ?st2 \<and>
           loads ?st2 = loads st @ [src, src]"
    using l1 l2 by simp
  show ?thesis
    using first later cached many
    by (intro exI[of _ src] exI[of _ ?st1] exI[of _ ?st2]) blast
qed

theorem failed_load_is_retried_witness:
  "SPRITE_IMAGES vis0 ''b'' = None \<and> MAP_SPRITES ''b'' = Some ''baba_obj.png'' \<and>
   \<not> none_decoded (length (loads vis0)) \<and>
   returned (loadSprite none_decoded (Some ''b'') vis0) = Some None \<and>
   loads (state_of (loadSprite none_decoded (Some ''b'')
            (state_of (loadSprite none_decoded (Some ''b'') vis0)))) =
     [''/static/img/baba_obj.png'', ''/static/img/baba_obj.png''] \<and>
   loads (load_times none_decoded ''b'' 3 vis0) =
     [''/static/img/baba_obj.png'', ''/static/img/baba_obj.png'', ''/static/img/baba_obj.png''] \<and>
   SPRITE_IMAGES (load_times none_decoded ''b'' 3 vis0) ''b'' = None"
proof -
  have a: "SPRITE_IMAGES vis0 ''b'' = None" by (simp add: vis0_def)
  have m: "MAP_SPRITES ''b'' = Some ''baba_obj.png''" by (simp add: MAP_SPRITES_def)
  then have b: "MAP_SPRITES ''b'' \<noteq> None \<or> endsWith ''b'' ''.png''" by simp
  have c: "\<not> none_decoded (length (loads vis0))" by (simp add: none_decoded_def)
  have l: "loads vis0 = []" by (simp add: vis0_def)
  have f: "\<forall>k<3. \<not> none_decoded (length (loads vis0) + k)" by (simp add: none_decoded_def)
  obtain src st1 st2 where
    s1: "loadSprite none_decoded (Some ''b'') vis0 = Done None st1" and
    l1: "loads st1 = loads vis0 @ [src]" and
    s2: "loadSprite none_decoded (Some ''b'') st1 =
           Done (if none_decoded (Suc (length (loads vis0))) then Some (Image src) else None) st2" and
    l2: "loads st2 = loads vis0 @ [src, src]" and
    l3: "\<forall>n. (\<forall>k<n. \<not> none_decoded (length (loads vis0) + k)) \<longrightarrow>
              loads (load_times none_decoded ''b'' n vis0) = loads vis0 @ replicate n src \<and>
              SPRITE_IMAGES (load_times none_decoded ''b'' n vis0) = SPRITE_IMAGES vis0"
    using failed_load_is_retried [of vis0 "''b''" none_decoded, OF a b c] by blast
  have "loads st1 = [''/static/img/baba_obj.png'']"
    using s1 by (auto simp: loadSprite_def loadSprite_start_def loadSprite_settle_def start_load_def
                   prop_key_def m vis0_def endsWith_def SPRITE_BASE_PATH_def none_decoded_def)
  then have src: "src = ''/static/img/baba_obj.png''" using l1 l by simp
  have t3: "loads (load_times none_decoded ''b'' 3 vis0) = loads vis0 @ replicate 3 src \<and>
            SPRITE_IMAGES (load_times none_decoded ''b'' 3 vis0) = SPRITE_IMAGES vis0"
    using l3 f by blast
  have r3: "replicate 3 src = [src, src, src]" by (simp add: numeral_3_eq_3)
  have e3: "loads (load_times none_decoded ''b'' 3 vis0) = [src, src, src]"
    using t3 l r3 by simp
  have c3: "SPRITE_IMAGES (load_times none_decoded ''b'' 3 vis0) ''b'' = None"
    using t3 a by simp
  show ?thesis using a m c s1 s2 l2 l src e3 c3 by simp
qed

text \<open>
  Claim C2 as stated fails: after a failed load of \<^verbatim>\<open>b\<close> the symbol is not in the
  cache, and the next call starts a second load and returns the image.
\<close>

theorem failed_load_counterexample:
  "returned (loadSprite first_fails (Some ''b'') vis0) = Some None \<and>
   SPRITE_IMAGES (state_of (loadSprite first_fails (Some ''b'') vis0)) ''b'' = None \<and>
   returned (loadSprite first_fails (Some ''b'') (state_of (loadSprite first_fails (Some ''b'') vis0)))
     = Some (Some (Image ''/static/img/baba_obj.png'')) \<and>
   loads (state_of (loadSprite first_fails (Some ''b'') (state_of (loadSprite first_fails (Some ''b'') vis0))))
     = [''/static/img/baba_obj.png'', ''/static/img/baba_obj.png'']"
  by (simp add: loadSprite_def loadSprite_start_def loadSprite_settle_def start_load_def
        prop_key_def MAP_SPRITES_def vis0_def endsWith_def SPRITE_BASE_PATH_def first_fails_def)

section \<open>Displaying a step\<close>

lemma display_cases:
  "displayPrecomputedStep dec i cb st = Done () st \<and>
     (precomputedStates st = [] \<or> i < 0 \<or> int (length (precomputedStates st)) \<le> i)
   \<or> (precomputedStates st \<noteq> [] \<and> 0 \<le> i \<and> i < int (length (precomputedStates st)) \<and>
      (\<exists>st2. controller_kept (st\<lparr>currentStepIndex := i\<rparr>) st2 \<and>
         canvas st2 = canvas (state_of (drawMap dec (parseAsciiMap (ascii_map (precomputedStates st ! nat i))) (st\<lparr>currentStepIndex := i\<rparr>))) \<and>
         (displayPrecomputedStep dec i cb st = Threw TypeError st2 \<or>
          displayPrecomputedStep dec i cb st = Done () st2 \<or>
          displayPrecomputedStep dec i cb st =
            Done () (notify (StepUpdate i (int (length (precomputedStates st)) - 1)) st2))))"
proof (cases "precomputedStates st = [] \<or> i < 0 \<or> int (length (precomputedStates st)) \<le> i")
  case True
  then show ?thesis by (auto simp: displayPrecomputedStep_def)
next
  case False
  let ?st1 = "st\<lparr>currentStepIndex := i\<rparr>"
  let ?g = "parseAsciiMap (ascii_map (precomputedStates st ! nat i))"
  have k: "controller_kept ?st1 (state_of (drawMap dec ?g ?st1))" by (rule drawMap_kept)
  show ?thesis
  proof (cases "drawMap dec ?g ?st1")
    case (Threw e st2)
    then have "displayPrecomputedStep dec i cb st = Threw TypeError st2"
      using False by (cases e) (simp add: displayPrecomputedStep_def Let_def)
    then show ?thesis using False k Threw by auto
  next
    case (Done u st2)
    then have len: "precomputedStates st2 = precomputedStates st"
      using k by (simp add: controller_kept_def)
    have "displayPrecomputedStep dec i cb st =
        Done () (if onStepUpdate cb then notify (StepUpdate i (int (length (precomputedStates st)) - 1)) st2 else st2)"
      using False Done len by (simp add: displayPrecomputedStep_def Let_def)
    then show ?thesis using False k Done by (cases "onStepUpdate cb") auto
  qed
qed

lemma display_frame:
  "currentSolution (state_of (displayPrecomputedStep dec i cb st)) = currentSolution st \<and>
   solutionPlayerInterval (state_of (displayPrecomputedStep dec i cb st)) = solutionPlayerInterval st \<and>
   precomputedStates (state_of (displayPrecomputedStep dec i cb st)) = precomputedStates st \<and>
   timers (state_of (displayPrecomputedStep dec i cb st)) = timers st \<and>
   timer_count (state_of (displayPrecomputedStep dec i cb st)) = timer_count st \<and>
   saved (state_of (displayPrecomputedStep dec i cb st)) = saved st"
  using display_cases[of dec i cb st]
  by (auto simp: controller_kept_def notify_def)

lemma display_index:
  "currentStepIndex (state_of (displayPrecomputedStep dec i cb st)) =
     (if precomputedStates st \<noteq> [] \<and> 0 \<le> i \<and> i < int (length (precomputedStates st))
      then i else currentStepIndex st)"
  using display_cases[of dec i cb st]
  by (auto simp: controller_kept_def notify_def)

lemma display_canvas:
  "precomputedStates st \<noteq> [] \<Longrightarrow> 0 \<le> i \<Longrightarrow> i < int (length (precomputedStates st)) \<Longrightarrow>
   canvas (state_of (displayPrecomputedStep dec i cb st)) =
     canvas (state_of (drawMap dec (parseAsciiMap (ascii_map (precomputedStates st ! nat i)))
                         (st\<lparr>currentStepIndex := i\<rparr>)))"
  using display_cases[of dec i cb st]
  by (auto simp: notify_def)

lemma display_renders:
  assumes "0 \<le> i" and "i \<le> int (length (precomputedStates st)) - 1"
      and "drawMap dec (parseAsciiMap (ascii_map (precomputedStates st ! nat i)))
             (st\<lparr>currentStepIndex := i\<rparr>) = Done () st'"
  shows "displayPrecomputedStep dec i cb st =
           Done () (if onStepUpdate cb
                    then notify (StepUpdate i (int (length (precomputedStates st)) - 1)) st'
                    else st')"
    and "controller_kept (st\<lparr>currentStepIndex := i\<rparr>) st'"
proof -
  have ne: "precomputedStates st \<noteq> []" using assms(1,2) by auto
  show k: "controller_kept (st\<lparr>currentStepIndex := i\<rparr>) st'"
    using drawMap_kept[of "st\<lparr>currentStepIndex := i\<rparr>" dec
            "parseAsciiMap (ascii_map (precomputedStates st ! nat i))"] assms(3) by simp
  show "displayPrecomputedStep dec i cb st =
           Done () (if onStepUpdate cb
                    then notify (StepUpdate i (int (length (precomputedStates st)) - 1)) st'
                    else st')"
    using ne assms k by (simp add: displayPrecomputedStep_def Let_def controller_kept_def)
qed

text \<open>
  Claim C7. A step index outside the session (below 0, above the last index, or any
  index when no session is loaded) is rejected: \<open>displayStep\<close> returns with the state
  as it was, so nothing is drawn, the current index is unchanged and no notification is
  made.
\<close>

theorem displayStep_rejects_out_of_range:
  assumes "precomputedStates st = [] \<or> i < 0 \<or> int (length (precomputedStates st)) - 1 < i"
  shows "displayStep dec i cb st = Done () st \<and>
         displayPrecomputedStep dec i cb st = Done () st \<and>
         canvas (state_of (displayStep dec i cb st)) = canvas st \<and>
         currentStepIndex (state_of (displayStep dec i cb st)) = currentStepIndex st \<and>
         notified (state_of (displayStep dec i cb st)) = notified st"
proof -
  have "displayPrecomputedStep dec i cb st = Done () st"
    using assms by (auto simp: displayPrecomputedStep_def)
  then show ?thesis by (simp add: displayStep_def)
qed

theorem displayStep_rejects_out_of_range_witness:
  "int (length (precomputedStates one_move_session)) - 1 < 2 \<and>
   displayStep all_decoded 2 visualizationCallbacks one_move_session = Done () one_move_session \<and>
   precomputedStates vis0 = [] \<and>
   displayStep all_decoded 0 visualizationCallbacks vis0 = Done () vis0"
  using displayStep_rejects_out_of_range [of one_move_session 2 all_decoded visualizationCallbacks]
        displayStep_rejects_out_of_range [of vis0 0 all_decoded visualizationCallbacks]
  by (simp add: one_move_session_def one_move_states_def vis0_def)

subsection \<open>The index stays inside the session\<close>

lemma index_in_session_display:
  "index_in_session st \<Longrightarrow> index_in_session (state_of (displayStep dec j cb st))"
  using display_frame[of dec j cb st] display_index[of dec j cb st]
  by (auto simp: index_in_session_def displayStep_def)

lemma index_in_session_tick:
  "index_in_session st \<Longrightarrow> index_in_session (interval_tick dec (maxStepIndex_of st) cb st)"
proof -
  assume a: "index_in_session st"
  show ?thesis
  proof (cases "currentStepIndex st < maxStepIndex_of st")
    case True
    then show ?thesis
      using a display_frame[of dec "currentStepIndex st + 1" cb st]
            display_index[of dec "currentStepIndex st + 1" cb st]
      by (auto simp: interval_tick_def index_in_session_def maxStepIndex_of_def)
  next
    case False
    then show ?thesis
      using a
      by (auto simp: interval_tick_def index_in_session_def clearInterval_def notify_def Let_def
               split: option.splits)
  qed
qed

lemma index_in_session_run_ops:
  "index_in_session st \<Longrightarrow> index_in_session (run_ops ops st)"
proof (induction ops arbitrary: st)
  case Nil
  then show ?case by simp
next
  case (Cons x xs)
  have "index_in_session (run_op x st)"
    using Cons.prems by (cases x) (simp_all add: index_in_session_display index_in_session_tick)
  then show ?case using Cons.IH by simp
qed

text \<open>
  Claim C8, as amended. The statement is about a call of \<open>displayStep\<close> that is followed
  to its end with no other operation of the module running while it waits for the
  rendering, as \<open>displayStep\<close> is defined here; so the session is not closed or replaced
  meanwhile. For a valid index \<open>i\<close> of the loaded session whose snapshot is rendered
  without an exception, such a call decodes the map text of snapshot \<open>i\<close>, renders it,
  sets the current index to \<open>i\<close> and, when the callback is supplied, calls
  \<^verbatim>\<open>onStepUpdate(i, N)\<close> with \<open>N\<close> the number of snapshots minus one. From then on the
  current index stays between 0 and \<open>N\<close> through any further display requests and
  timer ticks, each followed to its end in the same way. It does not stay there through
  \<^verbatim>\<open>toggleSolutionPlayback\<close>: when the step displayed is the last one and the player is
  paused, that call puts the current index back to \<open>-1\<close>.
\<close>

theorem displayStep_valid_index:
  assumes "0 \<le> i" and "i \<le> int (length (precomputedStates st)) - 1"
      and "drawMap dec (parseAsciiMap (ascii_map (precomputedStates st ! nat i)))
             (st\<lparr>currentStepIndex := i\<rparr>) = Done () st'"
  shows "displayStep dec i cb st =
           Done () (if onStepUpdate cb
                    then notify (StepUpdate i (int (length (precomputedStates st)) - 1)) st'
                    else st') \<and>
         currentStepIndex (state_of (displayStep dec i cb st)) = i \<and>
         precomputedStates (state_of (displayStep dec i cb st)) = precomputedStates st \<and>
         index_in_session (run_ops ops (state_of (displayStep dec i cb st))) \<and>
         (i = int (length (precomputedStates st)) - 1 \<longrightarrow> solutionPlayerInterval st = None \<longrightarrow>
            currentStepIndex
              (snd (toggleSolutionPlayback cb' (state_of (displayStep dec i cb st)))) = - 1)"
proof -
  have ne: "precomputedStates st \<noteq> []" using assms(1,2) by auto
  note k = display_renders(2)[OF assms]
  have d: "displayStep dec i cb st =
           Done () (if onStepUpdate cb
                    then notify (StepUpdate i (int (length (precomputedStates st)) - 1)) st'
                    else st')"
    using display_renders(1)[OF assms] by (simp add: displayStep_def)
  have i: "currentStepIndex (state_of (displayStep dec i cb st)) = i"
    using d k by (simp add: controller_kept_def notify_def)
  have p: "precomputedStates (state_of (displayStep dec i cb st)) = precomputedStates st"
    using d k by (simp add: controller_kept_def notify_def)
  have v: "solutionPlayerInterval (state_of (displayStep dec i cb st)) = solutionPlayerInterval st"
    using d k by (simp add: controller_kept_def notify_def)
  have t: "currentStepIndex
              (snd (toggleSolutionPlayback cb' (state_of (displayStep dec i cb st)))) = - 1"
    if "i = int (length (precomputedStates st)) - 1" and "solutionPlayerInterval st = None"
    using that i p v ne
    by (simp add: toggleSolutionPlayback_def maxStepIndex_of_def setInterval_def Let_def)
  have "index_in_session (state_of (displayStep dec i cb st))"
    using i p ne assms(1,2) by (simp add: index_in_session_def)
  then show ?thesis using d i p t index_in_session_run_ops by blast
qed

theorem displayStep_valid_index_witness:
  "(0::int) \<le> 1 \<and> 1 \<le> int (length (precomputedStates one_move_session)) - 1 \<and>
   \<not> threw (displayStep all_decoded 1 visualizationCallbacks one_move_session) \<and>
   currentStepIndex (state_of (displayStep all_decoded 1 visualizationCallbacks one_move_session)) = 1 \<and>
   notified (state_of (displayStep all_decoded 1 visualizationCallbacks one_move_session)) = [StepUpdate 1 1] \<and>
   index_in_session (run_ops [DisplayOp all_decoded 0 visualizationCallbacks, TickOp all_decoded visualizationCallbacks,
       TickOp all_decoded visualizationCallbacks, DisplayOp none_decoded 7 visualizationCallbacks]
     (state_of (displayStep all_decoded 1 visualizationCallbacks one_move_session))) \<and>
   solutionPlayerInterval one_move_session = None \<and>
   currentStepIndex (snd (toggleSolutionPlayback visualizationCallbacks
     (state_of (displayStep all_decoded 1 visualizationCallbacks one_move_session)))) = - 1"
proof -
  let ?g = "parseAsciiMap (ascii_map (precomputedStates one_move_session ! nat 1))"
  let ?s = "one_move_session\<lparr>currentStepIndex := 1\<rparr>"
  have g: "no_short_row ?g"
    by (simp add: one_move_session_def one_move_states_def parseAsciiMap_def trim_def
          is_js_space_def nl_def split_chars_def no_short_row_def)
  obtain st' where d: "drawMap all_decoded ?g ?s = Done () st'"
    using drawMap_no_throw[OF g, of all_decoded ?s] by (cases "drawMap all_decoded ?g ?s") auto
  have k: "notified st' = []"
    using drawMap_kept[of ?s all_decoded ?g] d
    by (simp add: controller_kept_def one_move_session_def vis0_def)
  have r1: "(0::int) \<le> 1" by simp
  have len: "int (length (precomputedStates one_move_session)) - 1 = 1"
    by (simp add: one_move_session_def one_move_states_def)
  have r2: "1 \<le> int (length (precomputedStates one_move_session)) - 1"
    unfolding len by simp
  have cbu: "onStepUpdate visualizationCallbacks = True"
    by (simp add: visualizationCallbacks_def)
  note t = displayStep_valid_index [OF r1 r2 d, of visualizationCallbacks
       "[DisplayOp all_decoded 0 visualizationCallbacks, TickOp all_decoded visualizationCallbacks,
         TickOp all_decoded visualizationCallbacks, DisplayOp none_decoded 7 visualizationCallbacks]"
       visualizationCallbacks,
       unfolded len cbu if_True]
  have e: "displayStep all_decoded 1 visualizationCallbacks one_move_session =
              Done () (notify (StepUpdate 1 1) st')"
    using t by (rule conjunct1)
  have n: "notified (state_of (displayStep all_decoded 1 visualizationCallbacks one_move_session)) = [StepUpdate 1 1]"
    unfolding e using k by (simp add: notify_def)
  have nt: "\<not> threw (displayStep all_decoded 1 visualizationCallbacks one_move_session)"
    unfolding e by simp
  have pz: "solutionPlayerInterval one_move_session = None"
    by (simp add: one_move_session_def vis0_def)
  show ?thesis
    using r1 r2 nt n pz t by blast
qed

text \<open>
  Claim C8 as stated fails twice. With the last step of the one-move session on
  display, pressing play puts the current index back to \<open>-1\<close>. And for the session
  whose only snapshot has a short row, \<open>displayStep\<close> at the valid index 0 throws and
  makes no notification.
\<close>

theorem displayStep_then_replay_counterexample:
  "currentStepIndex (state_of (displayStep all_decoded 1 visualizationCallbacks one_move_session)) = 1 \<and>
   currentStepIndex (snd (toggleSolutionPlayback visualizationCallbacks
      (state_of (displayStep all_decoded 1 visualizationCallbacks one_move_session)))) = - 1 \<and>
   threw (displayStep all_decoded 0 visualizationCallbacks short_row_session) \<and>
   notified (state_of (displayStep all_decoded 0 visualizationCallbacks short_row_session)) = []"
  by (simp add: eval_defs)

section \<open>Playback\<close>



lemma toggle_paused:
  "solutionPlayerInterval st = None \<Longrightarrow> 0 \<le> maxStepIndex_of st \<Longrightarrow>
   toggleSolutionPlayback cb st =
     (True, st\<lparr>currentStepIndex := (if maxStepIndex_of st \<le> currentStepIndex st then - 1
                                       else currentStepIndex st),
               timers := timers st @ [(Suc (timer_count st), maxStepIndex_of st, cb)],
               timer_count := Suc (timer_count st),
               solutionPlayerInterval := Some (Suc (timer_count st))\<rparr>)"
  by (simp add: toggleSolutionPlayback_def setInterval_def Let_def)

lemma maxStepIndex_of_upd [simp]:
  "maxStepIndex_of (st\<lparr>timers := ts\<rparr>) = maxStepIndex_of st"
  "maxStepIndex_of (st\<lparr>timer_count := n\<rparr>) = maxStepIndex_of st"
  "maxStepIndex_of (st\<lparr>solutionPlayerInterval := x\<rparr>) = maxStepIndex_of st"
  "maxStepIndex_of (st\<lparr>currentStepIndex := i\<rparr>) = maxStepIndex_of st"
  "maxStepIndex_of (st\<lparr>notified := ns\<rparr>) = maxStepIndex_of st"
  by (simp_all add: maxStepIndex_of_def)

text \<open>
  Claim C5. With a session loaded, the player paused and the current index at the last
  step, \<open>toggleSolutionPlayback\<close> returns true, puts the current index to \<open>-1\<close> and
  starts a timer whose callback captured the last index; the first tick of that timer is
  the display of step 0: it sets the current index to 0 and draws the map of snapshot 0.
\<close>

theorem replay_from_start:
  assumes "precomputedStates st \<noteq> []"
      and "solutionPlayerInterval st = None"
      and "currentStepIndex st = int (length (precomputedStates st)) - 1"
  shows "fst (toggleSolutionPlayback cb st) \<and>
         currentStepIndex (snd (toggleSolutionPlayback cb st)) = - 1 \<and>
         solutionPlayerInterval (snd (toggleSolutionPlayback cb st)) = Some (Suc (timer_count st)) \<and>
         timers (snd (toggleSolutionPlayback cb st)) =
           timers st @ [(Suc (timer_count st), int (length (precomputedStates st)) - 1, cb)] \<and>
         interval_tick dec (int (length (precomputedStates st)) - 1) cb (snd (toggleSolutionPlayback cb st)) =
           state_of (displayPrecomputedStep dec 0 cb (snd (toggleSolutionPlayback cb st))) \<and>
         currentStepIndex
           (interval_tick dec (int (length (precomputedStates st)) - 1) cb (snd (toggleSolutionPlayback cb st))) = 0 \<and>
         canvas
           (interval_tick dec (int (length (precomputedStates st)) - 1) cb (snd (toggleSolutionPlayback cb st))) =
           canvas (state_of (drawMap dec (parseAsciiMap (ascii_map (precomputedStates st ! 0)))
                     ((snd (toggleSolutionPlayback cb st))\<lparr>currentStepIndex := 0\<rparr>)))"
proof -
  let ?N = "int (length (precomputedStates st)) - 1"
  have m: "maxStepIndex_of st = ?N" using assms(1) by (simp add: maxStepIndex_of_def)
  have N0: "0 \<le> ?N" using assms(1) by (cases "precomputedStates st") auto
  let ?st1 = "st\<lparr>currentStepIndex := - 1,
               timers := timers st @ [(Suc (timer_count st), ?N, cb)],
               timer_count := Suc (timer_count st),
               solutionPlayerInterval := Some (Suc (timer_count st))\<rparr>"
  have t: "toggleSolutionPlayback cb st = (True, ?st1)"
    using toggle_paused[OF assms(2), of cb] N0 assms(3) by (simp add: m)
  have ps: "precomputedStates ?st1 = precomputedStates st" by simp
  have tick: "interval_tick dec ?N cb ?st1 = state_of (displayPrecomputedStep dec 0 cb ?st1)"
    using N0 by (simp add: interval_tick_def)
  have idx: "currentStepIndex (state_of (displayPrecomputedStep dec 0 cb ?st1)) = 0"
    using display_index[of dec 0 cb ?st1] assms(1) by simp
  have cv: "canvas (state_of (displayPrecomputedStep dec 0 cb ?st1)) =
              canvas (state_of (drawMap dec (parseAsciiMap (ascii_map (precomputedStates st ! 0)))
                     (?st1\<lparr>currentStepIndex := 0\<rparr>)))"
    using display_canvas[of ?st1 0 dec cb] assms(1) by simp
  show ?thesis
    unfolding t fst_conv snd_conv tick using idx cv by simp
qed

theorem replay_from_start_witness:
  "precomputedStates at_the_end \<noteq> [] \<and> solutionPlayerInterval at_the_end = None \<and>
   currentStepIndex at_the_end = int (length (precomputedStates at_the_end)) - 1 \<and>
   fst (toggleSolutionPlayback visualizationCallbacks at_the_end) \<and>
   currentStepIndex (snd (toggleSolutionPlayback visualizationCallbacks at_the_end)) = - 1 \<and>
   currentStepIndex (interval_tick all_decoded 1 visualizationCallbacks
      (snd (toggleSolutionPlayback visualizationCallbacks at_the_end))) = 0"
proof -
  have a: "precomputedStates at_the_end \<noteq> []"
    by (simp add: at_the_end_def one_move_session_def one_move_states_def)
  have b: "solutionPlayerInterval at_the_end = None"
    by (simp add: at_the_end_def one_move_session_def vis0_def)
  have len: "int (length (precomputedStates at_the_end)) - 1 = 1"
    by (simp add: at_the_end_def one_move_session_def one_move_states_def)
  have c: "currentStepIndex at_the_end = int (length (precomputedStates at_the_end)) - 1"
    unfolding len by (simp add: at_the_end_def)
  show ?thesis
    using a b c replay_from_start [OF a b c, of visualizationCallbacks all_decoded, unfolded len]
    by blast
qed

subsection \<open>Two toggles in a row\<close>


subsection \<open>The player stays consistent\<close>



lemma stop_player_frame:
  "currentSolution (stop_player st) = currentSolution st \<and>
   currentStepIndex (stop_player st) = currentStepIndex st \<and>
   precomputedStates (stop_player st) = precomputedStates st \<and>
   notified (stop_player st) = notified st \<and> canvas (stop_player st) = canvas st \<and>
   loads (stop_player st) = loads st \<and> SPRITE_IMAGES (stop_player st) = SPRITE_IMAGES st \<and>
   saved (stop_player st) = saved st"
  by (simp add: stop_player_def clearInterval_def split: option.splits)

















section \<open>Opening a level view\<close>

text \<open>
  Claim C3, as amended. The statement is about a call of \<open>showGameView\<close> that is
  followed to its end with no other operation of the module running while it waits, as
  \<open>showGameView\<close> is defined here; so the session is not closed or replaced meanwhile.
  When the server answers with success and \<open>N + 1\<close> states, and the first snapshot is
  rendered without an exception, such a call loads the states as the session, renders
  index 0 (with \<^verbatim>\<open>onStepUpdate(0, N)\<close> if that callback is supplied) and then, when
  \<open>N > 0\<close>, calls \<^verbatim>\<open>onSolutionReady(N)\<close> if supplied. These are all the
  notifications it makes: when \<open>N = 0\<close> the step update is the only one, and in no case
  is \<^verbatim>\<open>onNoSolution\<close> among them.
\<close>

theorem showGameView_success:
  assumes "states \<noteq> []"
      and "no_short_row (parseAsciiMap (ascii_map (states ! 0)))"
  shows "\<exists>st' st0 st1.
           showGameView dec (Reply ''success'' states) levelId asciiMap solution cb st = Done () st' \<and>
           precomputedStates st' = states \<and> currentStepIndex st' = 0 \<and>
           currentSolution st' = solution_array solution \<and>
           solutionPlayerInterval st' = None \<and>
           notified st' = notified st
             @ (if onStepUpdate cb then [StepUpdate 0 (int (length states) - 1)] else [])
             @ (if 1 < length states \<and> onSolutionReady cb
                then [SolutionReady (int (length states) - 1)] else []) \<and>
           NoSolution \<notin> set (drop (length (notified st)) (notified st')) \<and>
           drawMap dec (parseAsciiMap (ascii_map (states ! 0))) st0 = Done () st1 \<and>
           SPRITE_IMAGES st0 = SPRITE_IMAGES st \<and> loads st0 = loads st \<and> canvas st0 = canvas st \<and>
           canvas st' = canvas st1"
proof -
  let ?st1 = "(stop_player st)\<lparr>currentStepIndex := - 1, precomputedStates := []\<rparr>"
  let ?st2 = "?st1\<lparr>precomputedStates := states, currentSolution := solution_array solution\<rparr>"
  let ?st3 = "if 1 < length states then saveStepByStepSolution states levelId ?st2 else ?st2"
  let ?st0 = "?st3\<lparr>currentStepIndex := 0\<rparr>"
  let ?g = "parseAsciiMap (ascii_map (states ! 0))"
  have p0: "precomputedStates ?st0 = states" by (simp add: saveStepByStepSolution_def)
  obtain st1 where d: "drawMap dec ?g (?st0\<lparr>currentStepIndex := 0\<rparr>) = Done () st1"
    using drawMap_returns[OF assms(2)] by blast
  have k: "controller_kept (?st0\<lparr>currentStepIndex := 0\<rparr>) st1"
    using drawMap_kept[of "?st0\<lparr>currentStepIndex := 0\<rparr>" dec ?g] d by simp
  let ?st4 = "if onStepUpdate cb then notify (StepUpdate 0 (int (length states) - 1)) st1 else st1"
  have r1: "0 \<le> (0::int)" by simp
  have r2: "0 \<le> int (length (precomputedStates ?st0)) - 1"
    using assms(1) unfolding p0 by (cases states) auto
  have dd: "displayPrecomputedStep dec 0 cb ?st0 = Done () ?st4"
    using display_renders(1)[OF r1 r2, of dec st1 cb] d
    unfolding p0 by simp
  have p4: "precomputedStates ?st4 = states"
    using k p0 by (simp add: controller_kept_def notify_def)
  let ?st' = "if 1 < length states \<and> onSolutionReady cb
              then notify (SolutionReady (int (length states) - 1)) ?st4 else ?st4"
  have sg: "showGameView dec (Reply ''success'' states) levelId asciiMap solution cb st = Done () ?st'"
  proof -
    have "showGameView dec (Reply ''success'' states) levelId asciiMap solution cb st =
          (case displayPrecomputedStep dec 0 cb ?st0 of
              Threw e st4 \<Rightarrow> show_initial_map dec asciiMap cb st4
            | Done u st4 \<Rightarrow>
                Done ()
                  (if length (precomputedStates st4) > 1 \<and> onSolutionReady cb
                   then notify (SolutionReady (int (length (precomputedStates st4)) - 1)) st4
                   else st4))"
      using assms(1) unfolding showGameView_def Let_def
      by (simp add: saveStepByStepSolution_def)
    then show ?thesis unfolding dd using p4 by simp
  qed
  have f: "precomputedStates ?st' = states \<and> currentStepIndex ?st' = 0 \<and>
           currentSolution ?st' = solution_array solution \<and> solutionPlayerInterval ?st' = None \<and>
           notified ?st' = notified st
             @ (if onStepUpdate cb then [StepUpdate 0 (int (length states) - 1)] else [])
             @ (if 1 < length states \<and> onSolutionReady cb
                then [SolutionReady (int (length states) - 1)] else []) \<and>
           canvas ?st' = canvas st1"
  proof -
    have si: "solutionPlayerInterval (stop_player st) = None"
      by (simp add: stop_player_def split: option.splits)
    have k1: "precomputedStates st1 = states \<and> currentStepIndex st1 = 0 \<and>
              currentSolution st1 = solution_array solution \<and> solutionPlayerInterval st1 = None \<and>
              notified st1 = notified st"
      using k stop_player_frame[of st] si
      by (simp add: controller_kept_def saveStepByStepSolution_def)
    show ?thesis using k1 by (simp add: notify_def)
  qed
  have i: "SPRITE_IMAGES (?st0\<lparr>currentStepIndex := 0\<rparr>) = SPRITE_IMAGES st \<and>
           loads (?st0\<lparr>currentStepIndex := 0\<rparr>) = loads st \<and>
           canvas (?st0\<lparr>currentStepIndex := 0\<rparr>) = canvas st"
    using stop_player_frame[of st] by (simp add: saveStepByStepSolution_def)
  have nn: "NoSolution \<notin> set (drop (length (notified st)) (notified ?st'))"
  proof -
    have "notified ?st' = notified st
             @ (if onStepUpdate cb then [StepUpdate 0 (int (length states) - 1)] else [])
             @ (if 1 < length states \<and> onSolutionReady cb
                then [SolutionReady (int (length states) - 1)] else [])"
      using f by blast
    then show ?thesis by simp
  qed
  show ?thesis using sg f nn d i by blast
qed

theorem showGameView_success_witness:
  "one_move_states \<noteq> [] \<and> no_short_row (parseAsciiMap (ascii_map (one_move_states ! 0))) \<and>
   \<not> threw (showGameView all_decoded (Reply ''success'' one_move_states) ''level''
      (ascii_map (one_move_states ! 0)) (SolArray [''r'']) visualizationCallbacks vis0) \<and>
   notified (state_of (showGameView all_decoded (Reply ''success'' one_move_states) ''level''
      (ascii_map (one_move_states ! 0)) (SolArray [''r'']) visualizationCallbacks vis0))
     = [StepUpdate 0 1, SolutionReady 1]"
proof -
  have a: "one_move_states \<noteq> []" by (simp add: one_move_states_def)
  have b: "no_short_row (parseAsciiMap (ascii_map (one_move_states ! 0)))"
    by (simp add: one_move_states_def parseAsciiMap_def trim_def is_js_space_def nl_def
          split_chars_def no_short_row_def)
  have len: "length one_move_states = 2" by (simp add: one_move_states_def)
  have cb: "onStepUpdate visualizationCallbacks" "onSolutionReady visualizationCallbacks"
    by (simp_all add: visualizationCallbacks_def)
  have n0: "notified vis0 = []" by (simp add: vis0_def)
  obtain st' where
    s: "showGameView all_decoded (Reply ''success'' one_move_states) ''level''
          (ascii_map (one_move_states ! 0)) (SolArray [''r'']) visualizationCallbacks vis0 = Done () st'"
    and n: "notified st' = notified vis0
             @ (if onStepUpdate visualizationCallbacks then [StepUpdate 0 (int (length one_move_states) - 1)] else [])
             @ (if 1 < length one_move_states \<and> onSolutionReady visualizationCallbacks
                then [SolutionReady (int (length one_move_states) - 1)] else [])"
    using showGameView_success [OF a b, of all_decoded "''level''" "ascii_map (one_move_states ! 0)"
            "SolArray [''r'']" visualizationCallbacks vis0]
    by blast
  have "notified st' = [StepUpdate 0 1, SolutionReady 1]"
    using n unfolding len n0 by (simp add: cb)
  then show ?thesis using a b s by simp
qed

text \<open>
  Claim C3 as stated fails: for an answer with one state, the initial one, step 0 is
  rendered and \<^verbatim>\<open>onStepUpdate(0, 0)\<close> is the only notification; \<^verbatim>\<open>onNoSolution\<close> is
  not called.
\<close>

theorem showGameView_no_moves_counterexample:
  "length no_move_states = 1 \<and>
   \<not> threw (showGameView all_decoded (Reply ''success'' no_move_states) ''level'' ''_b'' SolFalsy
      visualizationCallbacks vis0) \<and>
   notified (state_of (showGameView all_decoded (Reply ''success'' no_move_states) ''level'' ''_b'' SolFalsy
      visualizationCallbacks vis0)) = [StepUpdate 0 0]"
  by (simp add: eval_defs)

section \<open>Errors on the progress stream\<close>

lemma closed_frame:
  "levelsBody (setStatus m l ((close_stream es u)\<lparr>progressEventSource := None\<rparr>)) = levelsBody u \<and>
   metrics (setStatus m l ((close_stream es u)\<lparr>progressEventSource := None\<rparr>)) = metrics u \<and>
   progressBar (setStatus m l ((close_stream es u)\<lparr>progressEventSource := None\<rparr>)) = progressBar u \<and>
   streams_opened (setStatus m l ((close_stream es u)\<lparr>progressEventSource := None\<rparr>)) = streams_opened u \<and>
   open_streams (setStatus m l ((close_stream es u)\<lparr>progressEventSource := None\<rparr>)) =
     filter (\<lambda>e. e \<noteq> es) (open_streams u) \<and>
   progressEventSource (setStatus m l ((close_stream es u)\<lparr>progressEventSource := None\<rparr>)) = None \<and>
   statusMessage (setStatus m l ((close_stream es u)\<lparr>progressEventSource := None\<rparr>)) = m \<and>
   loadingIndicator (setStatus m l ((close_stream es u)\<lparr>progressEventSource := None\<rparr>)) = l \<and>
   alerts (setStatus m l ((close_stream es u)\<lparr>progressEventSource := None\<rparr>)) = alerts u"
  by (simp add: setStatus_def close_stream_def)

text \<open>
  Claim C10. For the stream the page holds, both error handlers (the transport error
  handler, and the message handler on an event of status \<^verbatim>\<open>error\<close>) close that
  stream and forget it, show an error in the status line (the message handler also in
  an alert, with the error the event carries), stop the loading indicator, open no
  stream (none is opened and the count of streams opened is unchanged), and leave the
  results table and the metrics as they were.
\<close>

theorem stream_error_is_final:
  assumes "progressEventSource u = Some es"
  shows "(\<exists>u'. onerror u = Inr u' \<and>
            progressEventSource u' = None \<and> es \<notin> set (open_streams u') \<and>
            open_streams u' = filter (\<lambda>e. e \<noteq> es) (open_streams u) \<and>
            streams_opened u' = streams_opened u \<and>
            statusMessage u' = ''Errore nella connessione col server. Riprova.'' \<and>
            \<not> loadingIndicator u' \<and> alerts u' = alerts u \<and>
            levelsBody u' = levelsBody u \<and> metrics u' = metrics u) \<and>
         (status d = Some ''error'' \<longrightarrow>
           (\<exists>u'. onmessage d u = Inr u' \<and>
            progressEventSource u' = None \<and> es \<notin> set (open_streams u') \<and>
            open_streams u' = filter (\<lambda>e. e \<noteq> es) (open_streams u) \<and>
            streams_opened u' = streams_opened u \<and>
            statusMessage u' = ''Errore: '' @ template_text (error d) \<and>
            \<not> loadingIndicator u' \<and>
            alerts u' = alerts u @ [''Si '' @ [CHR 0xE8] @ '' verificato un errore: '' @ template_text (error d)] \<and>
            levelsBody u' = levelsBody u \<and> metrics u' = metrics u))"
proof -
  have a: "\<exists>u'. onerror u = Inr u' \<and>
            progressEventSource u' = None \<and> es \<notin> set (open_streams u') \<and>
            open_streams u' = filter (\<lambda>e. e \<noteq> es) (open_streams u) \<and>
            streams_opened u' = streams_opened u \<and>
            statusMessage u' = ''Errore nella connessione col server. Riprova.'' \<and>
            \<not> loadingIndicator u' \<and> alerts u' = alerts u \<and>
            levelsBody u' = levelsBody u \<and> metrics u' = metrics u"
    using assms by (simp add: onerror_def closed_frame)
  have b: "\<exists>u'. onmessage d u = Inr u' \<and>
            progressEventSource u' = None \<and> es \<notin> set (open_streams u') \<and>
            open_streams u' = filter (\<lambda>e. e \<noteq> es) (open_streams u) \<and>
            streams_opened u' = streams_opened u \<and>
            statusMessage u' = ''Errore: '' @ template_text (error d) \<and>
            \<not> loadingIndicator u' \<and>
            alerts u' = alerts u @ [''Si '' @ [CHR 0xE8] @ '' verificato un errore: '' @ template_text (error d)] \<and>
            levelsBody u' = levelsBody u \<and> metrics u' = metrics u"
    if "status d = Some ''error''"
    using assms that by (simp add: onmessage_def alert_def closed_frame)
  show ?thesis using a b by blast
qed

theorem stream_error_is_final_witness:
  "progressEventSource streaming_ui = Some 1 \<and> status error_event = Some ''error'' \<and>
   onerror streaming_ui =
     Inr (streaming_ui\<lparr>progressEventSource := None, open_streams := [],
           statusMessage := ''Errore nella connessione col server. Riprova.'',
           loadingIndicator := False, solveBtn_disabled := False, progressContainer := False\<rparr>) \<and>
   onmessage error_event streaming_ui =
     Inr (streaming_ui\<lparr>progressEventSource := None, open_streams := [],
           statusMessage := ''Errore: agent crashed'',
           loadingIndicator := False, solveBtn_disabled := False, progressContainer := False,
           alerts := [''Si '' @ [CHR 0xE8] @ '' verificato un errore: agent crashed'']\<rparr>)"
proof -
  have a: "progressEventSource streaming_ui = Some 1" by (simp add: streaming_ui_def)
  have b: "status error_event = Some ''error''" by (simp add: error_event_def)
  have c: "onerror streaming_ui =
     Inr (streaming_ui\<lparr>progressEventSource := None, open_streams := [],
           statusMessage := ''Errore nella connessione col server. Riprova.'',
           loadingIndicator := False, solveBtn_disabled := False, progressContainer := False\<rparr>)"
    by (simp add: onerror_def streaming_ui_def setStatus_def close_stream_def)
  have d: "onmessage error_event streaming_ui =
     Inr (streaming_ui\<lparr>progressEventSource := None, open_streams := [],
           statusMessage := ''Errore: agent crashed'',
           loadingIndicator := False, solveBtn_disabled := False, progressContainer := False,
           alerts := [''Si '' @ [CHR 0xE8] @ '' verificato un errore: agent crashed'']\<rparr>)"
    by (simp add: onmessage_def streaming_ui_def error_event_def setStatus_def close_stream_def
          alert_def template_text_def)
  show ?thesis
    using stream_error_is_final [OF a, of error_event] a b c d by simp
qed

end
